theory Spec2Isabelle
  imports Main "HOL-Library.Word"
begin

unbundle bit_operations_syntax

section \<open>Ways in which a call does not return\<close>

text \<open>
  The C++ code leaves a function early in three ways that are not a return value:
  a failed \<^verbatim>\<open>assert\<close>, the \<^verbatim>\<open>std::out_of_range\<close> exception of
  \<^verbatim>\<open>vector::at\<close> and \<^verbatim>\<open>unordered_map::at\<close>, and an operation whose
  behaviour the language leaves undefined (a shift of a 32-bit operand by 32 or more,
  the conversion of \<^verbatim>\<open>log2(0)\<close> to \<^verbatim>\<open>unsigned\<close>).  Each is a value
  of \<open>error\<close>, and a function that can end this way returns \<open>error + 'a\<close>.
\<close>

datatype error = AssertionFailed | OutOfRange | UndefinedBehaviour

section \<open>Physical memory attributes (PmaManager.hpp)\<close>

text \<open>
  \<^verbatim>\<open>class Pma\<close>: the attribute bits (\<^verbatim>\<open>uint16_t attrib_\<close>) and the private flag
  \<^verbatim>\<open>word_\<close> (true when the page is attributed word by word).
\<close>

record Pma =
  attrib :: "16 word"
  word_flag :: bool

text \<open>The enumerators of \<^verbatim>\<open>Pma::Attrib\<close> that the accessors use.\<close>

definition Attrib_None :: "16 word" where "Attrib_None = 0"
definition Attrib_Exec :: "16 word" where "Attrib_Exec = 1"
definition Attrib_Read :: "16 word" where "Attrib_Read = 2"
definition Attrib_Write :: "16 word" where "Attrib_Write = 4"
definition Attrib_Idempotent :: "16 word" where "Attrib_Idempotent = 8"
definition Attrib_Atomic :: "16 word" where "Attrib_Atomic = 16"
definition Attrib_Mapped :: "16 word" where
  "Attrib_Mapped = Attrib_Exec OR Attrib_Read OR Attrib_Write"
definition Attrib_Default :: "16 word" where
  "Attrib_Default = Attrib_Mapped OR Attrib_Idempotent OR Attrib_Atomic"

text \<open>The constructor \<^verbatim>\<open>Pma(Attrib a = None)\<close>; \<^verbatim>\<open>Pma()\<close> is the unmapped attribute.\<close>

definition mkPma :: "16 word \<Rightarrow> Pma" where
  "mkPma a = \<lparr>attrib = a, word_flag = False\<rparr>"

definition unmappedPma :: Pma where
  "unmappedPma = mkPma Attrib_None"

definition isMapped :: "Pma \<Rightarrow> bool" where
  "isMapped p = (attrib p AND Attrib_Mapped \<noteq> 0)"

text \<open>\<^verbatim>\<open>Pma::operator==\<close> compares the attribute bits only.\<close>

definition pma_eq :: "Pma \<Rightarrow> Pma \<Rightarrow> bool" where
  "pma_eq a b = (attrib a = attrib b)"

text \<open>
  \<^verbatim>\<open>class PmaManager\<close>.  \<^verbatim>\<open>pagePmas_\<close> is a vector, \<^verbatim>\<open>wordPmas_\<close> and
  \<^verbatim>\<open>memMappedMasks_\<close> are unordered maps keyed by \<^verbatim>\<open>size_t\<close>.
\<close>

record PmaManager =
  pagePmas :: "Pma list"
  wordPmas :: "64 word \<rightharpoonup> Pma"
  memSize :: "64 word"
  pmaPageSize :: "64 word"
  pageShift :: nat
  memMappedMasks :: "64 word \<rightharpoonup> 32 word"

definition getPageIx :: "PmaManager \<Rightarrow> 64 word \<Rightarrow> 64 word" where
  "getPageIx pm addr = drop_bit (pageShift pm) addr"

text \<open>
  \<^verbatim>\<open>PmaManager::getPma\<close>.  The page entry is read with \<^verbatim>\<open>operator[]\<close> after
  the range check; the word entry is read with \<^verbatim>\<open>wordPmas_.at\<close>, which throws
  when the key is absent.
\<close>

definition getPma :: "PmaManager \<Rightarrow> 64 word \<Rightarrow> error + Pma" where
  "getPma pm addr =
     (let ix = getPageIx pm addr in
      if length (pagePmas pm) \<le> unat ix then Inr unmappedPma
      else
        let pma = pagePmas pm ! unat ix in
        if word_flag pma then
          (case wordPmas pm (drop_bit 2 addr) of
             None \<Rightarrow> Inl OutOfRange
           | Some w \<Rightarrow> Inr w)
        else Inr pma)"

text \<open>
  The loop of \<^verbatim>\<open>PmaManager::fracture\<close>:
  \<^verbatim>\<open>for (uint64_t i = 0; i < words; ++i, wordIx++) wordPmas_[wordIx] = pma;\<close>
  with the number of iterations still to run as the recursion argument.
\<close>

fun fracture_loop :: "(64 word \<rightharpoonup> Pma) \<Rightarrow> 64 word \<Rightarrow> Pma \<Rightarrow> nat \<Rightarrow> (64 word \<rightharpoonup> Pma)" where
  "fracture_loop wp wordIx pma 0 = wp"
| "fracture_loop wp wordIx pma (Suc n) = fracture_loop (wp(wordIx \<mapsto> pma)) (wordIx + 1) pma n"

text \<open>
  \<^verbatim>\<open>PmaManager::fracture\<close>.  \<^verbatim>\<open>Pma pma = pagePmas_.at(pageIx)\<close> copies the page
  entry (and throws out of range); \<^verbatim>\<open>pma.word_ = true\<close> sets the flag of the copy,
  and the copy is what the loop stores.  Nothing is assigned to \<^verbatim>\<open>pagePmas_\<close>.
\<close>

definition fracture :: "PmaManager \<Rightarrow> 64 word \<Rightarrow> error + PmaManager" where
  "fracture pm addr =
     (let pageIx = getPageIx pm addr in
      if length (pagePmas pm) \<le> unat pageIx then Inl OutOfRange
      else
        let pma = pagePmas pm ! unat pageIx in
        if word_flag pma then Inr pm
        else
          let pma' = pma\<lparr>word_flag := True\<rparr>;
              words = pmaPageSize pm div 4;
              wordIx = drop_bit 2 (pageIx * pmaPageSize pm)
          in Inr (pm\<lparr>wordPmas := fracture_loop (wordPmas pm) wordIx pma' (unat words)\<rparr>))"

section \<open>Page table entries and virtual addresses (VirtMem.hpp)\<close>

text \<open>
  The unions \<^verbatim>\<open>Pte32\<close>, \<^verbatim>\<open>Pte39\<close>, \<^verbatim>\<open>Pte48\<close> overlay a struct of bit fields
  on the raw word \<^verbatim>\<open>data_\<close>.  Every field is declared \<^verbatim>\<open>unsigned\<close>, and the layout
  is the one of the System V and Itanium C++ ABI (GCC and Clang on Linux, little endian):
  the fields are allocated in declaration order from the least significant bit, and a
  field never crosses a boundary of its 32-bit type: one that would not fit in what is
  left of the current 32-bit unit starts at the next unit.  \<open>field_offsets pos ws\<close> are
  the offsets this rule gives to fields of the widths \<open>ws\<close>, the first of them allocated
  from bit \<open>pos\<close> on.  In the 32-bit structs every field fits where the one before it
  ends; in the structs of Sv39 and Sv48 the field that follows bit 29 (of an address) or
  bit 27 (of an entry) is moved up to bit 32, and the reserved field of an entry lies
  beyond the 64 bits of \<^verbatim>\<open>data_\<close>.  \<open>bitfield d off w\<close> is the field of width \<open>w\<close> at
  offset \<open>off\<close>, as the \<^verbatim>\<open>uint32_t\<close> the accessors return.
\<close>

fun field_offsets :: "nat \<Rightarrow> nat list \<Rightarrow> nat list" where
  "field_offsets pos [] = []"
| "field_offsets pos (w # ws) =
     (let start = (if pos div 32 = (pos + w - 1) div 32 then pos else 32 * (pos div 32 + 1))
      in start # field_offsets (start + w) ws)"

definition bitfield :: "'a::len word \<Rightarrow> nat \<Rightarrow> nat \<Rightarrow> 32 word" where
  "bitfield d off w = ucast (take_bit w (drop_bit off d))"

datatype pte = Pte32 "32 word" | Pte39 "64 word" | Pte48 "64 word"

fun pte_bit :: "pte \<Rightarrow> nat \<Rightarrow> bool" where
  "pte_bit (Pte32 d) n = bit d n"
| "pte_bit (Pte39 d) n = bit d n"
| "pte_bit (Pte48 d) n = bit d n"

definition pte_valid :: "pte \<Rightarrow> bool" where "pte_valid p = pte_bit p 0"
definition pte_read :: "pte \<Rightarrow> bool" where "pte_read p = pte_bit p 1"
definition pte_write :: "pte \<Rightarrow> bool" where "pte_write p = pte_bit p 2"
definition pte_exec :: "pte \<Rightarrow> bool" where "pte_exec p = pte_bit p 3"
definition pte_user :: "pte \<Rightarrow> bool" where "pte_user p = pte_bit p 4"
definition pte_global :: "pte \<Rightarrow> bool" where "pte_global p = pte_bit p 5"
definition pte_accessed :: "pte \<Rightarrow> bool" where "pte_accessed p = pte_bit p 6"
definition pte_dirty :: "pte \<Rightarrow> bool" where "pte_dirty p = pte_bit p 7"

text \<open>\<^verbatim>\<open>pte.bits_.accessed_ = 1\<close> and \<^verbatim>\<open>pte.bits_.dirty_ = 1\<close>.\<close>

fun pte_set_bit :: "nat \<Rightarrow> pte \<Rightarrow> pte" where
  "pte_set_bit n (Pte32 d) = Pte32 (set_bit n d)"
| "pte_set_bit n (Pte39 d) = Pte39 (set_bit n d)"
| "pte_set_bit n (Pte48 d) = Pte48 (set_bit n d)"

definition pte_set_accessed :: "pte \<Rightarrow> pte" where "pte_set_accessed = pte_set_bit 6"
definition pte_set_dirty :: "pte \<Rightarrow> pte" where "pte_set_dirty = pte_set_bit 7"

text \<open>
  \<^verbatim>\<open>ppn(int i)\<close>.  An index that is not a level ends in \<^verbatim>\<open>assert(0)\<close>; the walk
  only passes indices below \<^verbatim>\<open>levels()\<close>, and the model gives 0 there, the value
  after the assertion.  \<^verbatim>\<open>Pte32Bits\<close>: \<^verbatim>\<open>ppn0_\<close> (10 bits) at bit 10, \<^verbatim>\<open>ppn1_\<close>
  (12 bits) at bit 20.  \<^verbatim>\<open>Pte39Bits\<close>: \<^verbatim>\<open>ppn0_\<close> and \<^verbatim>\<open>ppn1_\<close> (9 bits each) at bits
  10 and 19; \<^verbatim>\<open>ppn2_\<close> (26 bits) does not fit above bit 27 and is at bit 32.
  \<^verbatim>\<open>Pte48Bits\<close>: \<^verbatim>\<open>ppn0_\<close> and \<^verbatim>\<open>ppn1_\<close> at bits 10 and 19; \<^verbatim>\<open>ppn2_\<close> (9 bits)
  at bit 32 and \<^verbatim>\<open>ppn3_\<close> (17 bits) at bit 41.
\<close>

fun pte_ppn_i :: "pte \<Rightarrow> nat \<Rightarrow> 32 word" where
  "pte_ppn_i (Pte32 d) i = (if i = 0 then bitfield d 10 10 else if i = 1 then bitfield d 20 12 else 0)"
| "pte_ppn_i (Pte39 d) i =
     (if i = 0 then bitfield d 10 9 else if i = 1 then bitfield d 19 9
      else if i = 2 then bitfield d 32 26 else 0)"
| "pte_ppn_i (Pte48 d) i =
     (if i = 0 then bitfield d 10 9 else if i = 1 then bitfield d 19 9
      else if i = 2 then bitfield d 32 9 else if i = 3 then bitfield d 41 17 else 0)"

text \<open>\<^verbatim>\<open>ppn()\<close>: the components joined in 32-bit arithmetic (the return type is \<^verbatim>\<open>uint32_t\<close>).\<close>

fun pte_ppn :: "pte \<Rightarrow> 32 word" where
  "pte_ppn (Pte32 d) = pte_ppn_i (Pte32 d) 0 OR push_bit 10 (pte_ppn_i (Pte32 d) 1)"
| "pte_ppn (Pte39 d) =
     pte_ppn_i (Pte39 d) 0 OR push_bit 9 (pte_ppn_i (Pte39 d) 1) OR push_bit 18 (pte_ppn_i (Pte39 d) 2)"
| "pte_ppn (Pte48 d) =
     pte_ppn_i (Pte48 d) 0 OR push_bit 9 (pte_ppn_i (Pte48 d) 1) OR push_bit 18 (pte_ppn_i (Pte48 d) 2)
       OR push_bit 27 (pte_ppn_i (Pte48 d) 3)"

fun pte_levels :: "pte \<Rightarrow> nat" where
  "pte_levels (Pte32 d) = 2"
| "pte_levels (Pte39 d) = 3"
| "pte_levels (Pte48 d) = 4"

fun pte_size :: "pte \<Rightarrow> 32 word" where
  "pte_size (Pte32 d) = 4"
| "pte_size (Pte39 d) = 8"
| "pte_size (Pte48 d) = 8"

fun paPpnShift :: "pte \<Rightarrow> nat \<Rightarrow> nat" where
  "paPpnShift (Pte32 d) i = (if i = 0 then 12 else if i = 1 then 22 else 0)"
| "paPpnShift (Pte39 d) i = (if i = 0 then 12 else if i = 1 then 21 else if i = 2 then 30 else 0)"
| "paPpnShift (Pte48 d) i =
     (if i = 0 then 12 else if i = 1 then 21 else if i = 2 then 30 else if i = 3 then 39 else 0)"

text \<open>
  The unions \<^verbatim>\<open>Va32\<close>, \<^verbatim>\<open>Va39\<close>, \<^verbatim>\<open>Va48\<close>.  \<^verbatim>\<open>Va32Bits\<close>: the offset (12
  bits) at bit 0, \<^verbatim>\<open>vpn0_\<close> and \<^verbatim>\<open>vpn1_\<close> (10 bits each) at bits 12 and 22.
  \<^verbatim>\<open>Va39Bits\<close> and \<^verbatim>\<open>Va48Bits\<close>: the offset at bit 0, \<^verbatim>\<open>vpn0_\<close> and \<^verbatim>\<open>vpn1_\<close>
  (9 bits each) at bits 12 and 21; \<^verbatim>\<open>vpn2_\<close> (9 bits) does not fit above bit 29 and is
  at bit 32, and \<^verbatim>\<open>vpn3_\<close> of \<^verbatim>\<open>Va48Bits\<close> follows it at bit 41.  \<^verbatim>\<open>Va48::vpn3()\<close>
  is written \<^verbatim>\<open>return bits_.vpn2_;\<close> in the source, and so is it here.
\<close>

datatype va = Va32 "32 word" | Va39 "64 word" | Va48 "64 word"

fun va_offset :: "va \<Rightarrow> 32 word" where
  "va_offset (Va32 d) = bitfield d 0 12"
| "va_offset (Va39 d) = bitfield d 0 12"
| "va_offset (Va48 d) = bitfield d 0 12"

definition Va48_vpn0 :: "64 word \<Rightarrow> 32 word" where "Va48_vpn0 d = bitfield d 12 9"
definition Va48_vpn1 :: "64 word \<Rightarrow> 32 word" where "Va48_vpn1 d = bitfield d 21 9"
definition Va48_vpn2 :: "64 word \<Rightarrow> 32 word" where "Va48_vpn2 d = bitfield d 32 9"
definition Va48_vpn3 :: "64 word \<Rightarrow> 32 word" where "Va48_vpn3 d = bitfield d 32 9"

fun va_vpn :: "va \<Rightarrow> nat \<Rightarrow> 32 word" where
  "va_vpn (Va32 d) i = (if i = 0 then bitfield d 12 10 else if i = 1 then bitfield d 22 10 else 0)"
| "va_vpn (Va39 d) i =
     (if i = 0 then bitfield d 12 9 else if i = 1 then bitfield d 21 9
      else if i = 2 then bitfield d 32 9 else 0)"
| "va_vpn (Va48 d) i =
     (if i = 0 then Va48_vpn0 d else if i = 1 then Va48_vpn1 d
      else if i = 2 then Va48_vpn2 d else if i = 3 then Va48_vpn3 d else 0)"

section \<open>The collaborators of the translator\<close>

subsection \<open>Backing memory\<close>

text \<open>
  \<^verbatim>\<open>class Memory\<close> is outside the translator; the translator calls
  \<^verbatim>\<open>memory_.read(addr, value)\<close> and \<^verbatim>\<open>memory_.write(hartIx, addr, value)\<close> on 32-bit
  and 64-bit values and looks at the \<^verbatim>\<open>bool\<close> they return.  The memory is therefore a
  parameter: any type \<open>'m\<close> of memory states with these four operations.  A read that
  fails is \<open>None\<close>; a write returns its flag and the memory after it.  Every call the
  translator makes is recorded as a \<open>mem_event\<close>, in order, so that what a translation
  touches can be stated.
\<close>

record 'm memory_ops =
  read32 :: "'m \<Rightarrow> 64 word \<Rightarrow> 32 word option"
  read64 :: "'m \<Rightarrow> 64 word \<Rightarrow> 64 word option"
  write32 :: "'m \<Rightarrow> nat \<Rightarrow> 64 word \<Rightarrow> 32 word \<Rightarrow> bool \<times> 'm"
  write64 :: "'m \<Rightarrow> nat \<Rightarrow> 64 word \<Rightarrow> 64 word \<Rightarrow> bool \<times> 'm"

datatype mem_event = MemRead "64 word" | MemWrite nat "64 word" "64 word"

text \<open>\<^verbatim>\<open>memory_.read(pteAddr, pte.data_)\<close>: the width read is that of \<^verbatim>\<open>data_\<close>.\<close>

fun read_pte :: "'m memory_ops \<Rightarrow> 'm \<Rightarrow> 64 word \<Rightarrow> pte \<Rightarrow> pte option" where
  "read_pte ops mem addr (Pte32 d) = map_option Pte32 (read32 ops mem addr)"
| "read_pte ops mem addr (Pte39 d) = map_option Pte39 (read64 ops mem addr)"
| "read_pte ops mem addr (Pte48 d) = map_option Pte48 (read64 ops mem addr)"

text \<open>\<^verbatim>\<open>memory_.write(hartIx_, pteAddr, pte.data_)\<close>.\<close>

fun write_pte :: "'m memory_ops \<Rightarrow> 'm \<Rightarrow> nat \<Rightarrow> 64 word \<Rightarrow> pte \<Rightarrow> bool \<times> 'm" where
  "write_pte ops mem hart addr (Pte32 d) = write32 ops mem hart addr d"
| "write_pte ops mem hart addr (Pte39 d) = write64 ops mem hart addr d"
| "write_pte ops mem hart addr (Pte48 d) = write64 ops mem hart addr d"

fun pte_data :: "pte \<Rightarrow> 64 word" where
  "pte_data (Pte32 d) = ucast d"
| "pte_data (Pte39 d) = d"
| "pte_data (Pte48 d) = d"

text \<open>
  A memory to run the translator on: a partial map from addresses to cells.  A read or a
  write succeeds exactly at an address that holds a cell; a 32-bit access uses the low
  half of the cell.
\<close>

type_synonym cell_memory = "64 word \<rightharpoonup> 64 word"

definition cell_write :: "cell_memory \<Rightarrow> 64 word \<Rightarrow> 64 word \<Rightarrow> bool \<times> cell_memory" where
  "cell_write m a v = (if m a = None then (False, m) else (True, m(a \<mapsto> v)))"

definition cell_ops :: "cell_memory memory_ops" where
  "cell_ops =
     \<lparr>read32 = (\<lambda>m a. map_option ucast (m a)),
      read64 = (\<lambda>m a. m a),
      write32 = (\<lambda>m h a v. cell_write m a (ucast v)),
      write64 = (\<lambda>m h a v. cell_write m a v)\<rparr>"

subsection \<open>The translation lookaside buffer\<close>

text \<open>
  \<^verbatim>\<open>struct TlbEntry\<close> with the fields \<^verbatim>\<open>translate\<close> and \<^verbatim>\<open>pageTableWalk\<close> read and
  write.  A default-constructed entry has every field zero or false.
\<close>

record TlbEntry =
  virtPageNum :: "64 word"
  physPageNum :: "64 word"
  time :: "64 word"
  entry_asid :: "32 word"
  entry_valid :: bool
  entry_global :: bool
  entry_user :: bool
  entry_read :: bool
  entry_write :: bool
  entry_exec :: bool
  entry_accessed :: bool
  entry_dirty :: bool

definition emptyTlbEntry :: TlbEntry where
  "emptyTlbEntry =
     \<lparr>virtPageNum = 0, physPageNum = 0, time = 0, entry_asid = 0, entry_valid = False,
      entry_global = False, entry_user = False, entry_read = False, entry_write = False,
      entry_exec = False, entry_accessed = False, entry_dirty = False\<rparr>"

record Tlb =
  entries :: "TlbEntry list"
  tlb_clock :: "64 word"

fun first_index :: "('a \<Rightarrow> bool) \<Rightarrow> 'a list \<Rightarrow> nat option" where
  "first_index P [] = None"
| "first_index P (x # xs) = (if P x then Some 0 else map_option Suc (first_index P xs))"

text \<open>
  Modelled from the spec: the class \<^verbatim>\<open>Tlb\<close> (\<^verbatim>\<open>tlb_.findEntry\<close>, \<^verbatim>\<open>tlb_.insertEntry\<close>)
  is not among the sources.  The specification: find returns a handle on an entry that
  is valid, has the virtual page number asked for, and has the address space asked for
  or is global.  The handle is the position of the first such entry.
\<close>

definition tlb_match :: "64 word \<Rightarrow> 32 word \<Rightarrow> TlbEntry \<Rightarrow> bool" where
  "tlb_match vpn a e = (entry_valid e \<and> virtPageNum e = vpn \<and> (entry_asid e = a \<or> entry_global e))"

definition findEntry :: "Tlb \<Rightarrow> 64 word \<Rightarrow> 32 word \<Rightarrow> nat option" where
  "findEntry t vpn a = first_index (tlb_match vpn a) (entries t)"

text \<open>
  Modelled from the spec: insert installs the entry; at capacity it evicts one, chosen by
  the per-entry timestamp.  Here: the first invalid slot if there is one, else the first
  slot with the least timestamp; the installed entry is stamped with the buffer's clock.
  A buffer of capacity 0 stays empty.
\<close>

definition victim :: "TlbEntry list \<Rightarrow> nat option" where
  "victim es =
     (case first_index (\<lambda>e. \<not> entry_valid e) es of
        Some i \<Rightarrow> Some i
      | None \<Rightarrow> first_index (\<lambda>e. list_all (\<lambda>y. time e \<le> time y) es) es)"

definition insertEntry :: "Tlb \<Rightarrow> TlbEntry \<Rightarrow> Tlb" where
  "insertEntry t e =
     (case victim (entries t) of
        None \<Rightarrow> t
      | Some i \<Rightarrow> \<lparr>entries = (entries t)[i := e\<lparr>time := tlb_clock t\<rparr>], tlb_clock = tlb_clock t + 1\<rparr>)"

section \<open>The translator (VirtMem.cpp)\<close>

text \<open>
  Modelled from the spec: \<^verbatim>\<open>trapEnums.hpp\<close>, which declares \<^verbatim>\<open>ExceptionCause\<close> and
  \<^verbatim>\<open>PrivilegeMode\<close>, is not among the sources.  \<^verbatim>\<open>ExceptionCause\<close> has the four values
  the specification lists for the translator; of \<^verbatim>\<open>PrivilegeMode\<close> the translator compares
  with \<^verbatim>\<open>User\<close> and \<^verbatim>\<open>Supervisor\<close> only.  \<^verbatim>\<open>Mode\<close> is the enumeration of
  \<^verbatim>\<open>VirtMem\<close>.
\<close>

datatype ExceptionCause = NONE | INST_PAGE_FAULT | LOAD_PAGE_FAULT | STORE_PAGE_FAULT

datatype PrivilegeMode = User | Supervisor | Reserved | Machine

datatype Mode = Bare | Sv32 | Sv39 | Sv48 | Sv57 | Sv64

text \<open>
  The state of a \<^verbatim>\<open>VirtMem\<close>.  \<^verbatim>\<open>pageSize_\<close>, \<^verbatim>\<open>pageBits_\<close> and \<^verbatim>\<open>hartIx_\<close> are
  \<^verbatim>\<open>unsigned\<close>; \<^verbatim>\<open>pageBits_\<close> is only ever a shift amount and \<^verbatim>\<open>hartIx_\<close> only a
  tag passed on to the memory, so they are natural numbers here.  The members
  \<^verbatim>\<open>pageTableRootPage_\<close>, \<^verbatim>\<open>asid_\<close> and \<^verbatim>\<open>tlb_\<close> that \<^verbatim>\<open>VirtMem.cpp\<close> uses are
  not declared in the header among the sources (which has \<^verbatim>\<open>uint64_t pageTableRoot_\<close>
  and a vector of entries); the root page is a \<^verbatim>\<open>uint64_t\<close> here and the address space
  has the width of \<^verbatim>\<open>TlbEntry::asid_\<close>.  The memory the translator refers to
  (\<^verbatim>\<open>Memory& memory_\<close>) is passed beside the state.
\<close>

record VirtMem =
  mode :: Mode
  pageSize :: "32 word"
  pageBits :: nat
  pageMask :: "64 word"
  hartIx :: nat
  asid :: "32 word"
  pageTableRootPage :: "64 word"
  execReadable :: bool
  supervisorOk :: bool
  faultOnFirstAccess :: bool
  tlb :: Tlb

text \<open>What a call of \<^verbatim>\<open>translate\<close> leaves behind: the cause returned, the physical
  address if \<^verbatim>\<open>pa\<close> was assigned, the translator and the memory after the call, and the
  memory calls made, in order.\<close>

record 'm outcome =
  cause :: ExceptionCause
  pa :: "64 word option"
  vm_after :: VirtMem
  mem_after :: 'm
  accesses :: "mem_event list"

text \<open>The same for \<^verbatim>\<open>pageTableWalk\<close>, which fills a \<^verbatim>\<open>TlbEntry\<close> instead of changing
  the translator.\<close>

record 'm walk_outcome =
  w_cause :: ExceptionCause
  w_pa :: "64 word option"
  w_entry :: TlbEntry
  w_mem :: 'm
  w_accesses :: "mem_event list"

definition pageFaultType :: "bool \<Rightarrow> bool \<Rightarrow> bool \<Rightarrow> error + ExceptionCause" where
  "pageFaultType read write exec =
     (if exec then Inr INST_PAGE_FAULT
      else if read then Inr LOAD_PAGE_FAULT
      else if write then Inr STORE_PAGE_FAULT
      else Inl AssertionFailed)"

text \<open>\<^verbatim>\<open>return pageFaultType(read, write, exec);\<close> inside \<^verbatim>\<open>translate\<close> and inside
  \<^verbatim>\<open>pageTableWalk\<close>: \<^verbatim>\<open>pa\<close> is left alone, and so are the translator and the entry.\<close>

definition page_fault ::
  "bool \<Rightarrow> bool \<Rightarrow> bool \<Rightarrow> VirtMem \<Rightarrow> 'm \<Rightarrow> mem_event list \<Rightarrow> error + 'm outcome" where
  "page_fault read write exec vm mem evs =
     (case pageFaultType read write exec of
        Inl e \<Rightarrow> Inl e
      | Inr c \<Rightarrow> Inr \<lparr>cause = c, pa = None, vm_after = vm, mem_after = mem, accesses = evs\<rparr>)"

definition walk_fault ::
  "bool \<Rightarrow> bool \<Rightarrow> bool \<Rightarrow> 'm \<Rightarrow> mem_event list \<Rightarrow> error + 'm walk_outcome" where
  "walk_fault read write exec mem evs =
     (case pageFaultType read write exec of
        Inl e \<Rightarrow> Inl e
      | Inr c \<Rightarrow> Inr \<lparr>w_cause = c, w_pa = None, w_entry = emptyTlbEntry, w_mem = mem, w_accesses = evs\<rparr>)"

subsection \<open>The walk\<close>

text \<open>
  The \<^verbatim>\<open>while (true)\<close> loop of \<^verbatim>\<open>pageTableWalk\<close> (steps 3 to 5).  It ends in a fault
  or at a leaf entry with its level \<open>ii\<close>.  \<^verbatim>\<open>vpn*pteSize\<close> and
  \<^verbatim>\<open>pte.ppn() * pageSize_\<close> are products of 32-bit unsigned operands.  The
  \<^verbatim>\<open>pteAddr\<close> computed here is the loop body's own variable.
\<close>

datatype walk_end = WalkFault "mem_event list" | WalkLeaf pte nat "mem_event list"

fun walk_loop ::
  "'m memory_ops \<Rightarrow> VirtMem \<Rightarrow> 'm \<Rightarrow> pte \<Rightarrow> va \<Rightarrow> 64 word \<Rightarrow> nat \<Rightarrow> mem_event list \<Rightarrow> walk_end" where
  "walk_loop ops vm mem pte0 va root ii evs =
     (let vpn = va_vpn va ii;
          pteAddr = root + ucast (vpn * pte_size pte0);
          evs' = evs @ [MemRead pteAddr]
      in case read_pte ops mem pteAddr pte0 of
           None \<Rightarrow> WalkFault evs'
         | Some pte \<Rightarrow>
             if \<not> pte_valid pte \<or> (\<not> pte_read pte \<and> pte_write pte) then WalkFault evs'
             else if \<not> pte_read pte \<and> \<not> pte_exec pte then
               (case ii of
                  0 \<Rightarrow> WalkFault evs'
                | Suc k \<Rightarrow> walk_loop ops vm mem pte0 va (ucast (pte_ppn pte * pageSize vm)) k evs')
             else WalkLeaf pte ii evs')"

text \<open>
  Step 9 and the filling of the entry.  Each shift is \<^verbatim>\<open>uint32_t << uint32_t\<close>, so the
  shifted value is cut to 32 bits before it is or-ed into \<^verbatim>\<open>pa\<close>, and a shift by 32 or
  more has no defined result: \<^verbatim>\<open>Pte48::paPpnShift(3)\<close> is 39, and the second loop always
  reaches \<open>j = 3\<close> for a \<^verbatim>\<open>Pte48\<close>.
\<close>

fun walk_finish ::
  "VirtMem \<Rightarrow> 'm \<Rightarrow> pte \<Rightarrow> va \<Rightarrow> 64 word \<Rightarrow> nat \<Rightarrow> mem_event list \<Rightarrow> error + 'm walk_outcome" where
  "walk_finish vm mem pte va address ii evs =
     (if list_ex (\<lambda>j. 32 \<le> paPpnShift pte j) [0..<pte_levels pte] then Inl UndefinedBehaviour
      else
        let pa0 = ucast (va_offset va);
            pa1 = fold (\<lambda>j pa. pa OR ucast (push_bit (paPpnShift pte j) (va_vpn va j))) [0..<ii] pa0;
            pa2 = fold (\<lambda>j pa. pa OR ucast (push_bit (paPpnShift pte j) (pte_ppn_i pte j)))
                    [ii..<pte_levels pte] pa1;
            tlbEntry =
              \<lparr>virtPageNum = drop_bit (pageBits vm) address,
               physPageNum = drop_bit (pageBits vm) pa2,
               time = 0,
               entry_asid = asid vm,
               entry_valid = True,
               entry_global = pte_global pte,
               entry_user = pte_user pte,
               entry_read = pte_read pte,
               entry_write = pte_write pte,
               entry_exec = pte_exec pte,
               entry_accessed = pte_accessed pte,
               entry_dirty = pte_dirty pte\<rparr>
        in Inr \<lparr>w_cause = NONE, w_pa = Some pa2, w_entry = tlbEntry, w_mem = mem, w_accesses = evs\<rparr>)"

text \<open>
  \<^verbatim>\<open>VirtMem::pageTableWalk<PTE, VA>\<close>.  \<open>pte0\<close> is \<^verbatim>\<open>PTE pte(0)\<close> and \<open>va\<close> is
  \<^verbatim>\<open>VA va(address)\<close>.  The function declares \<^verbatim>\<open>uint64_t pteAddr = 0\<close> before the loop;
  the loop body declares a \<^verbatim>\<open>pteAddr\<close> of its own, so the one step 8 passes to
  \<^verbatim>\<open>memory_.write\<close> is still 0.
\<close>

fun pageTableWalk ::
  "'m memory_ops \<Rightarrow> VirtMem \<Rightarrow> 'm \<Rightarrow> pte \<Rightarrow> va \<Rightarrow> 64 word \<Rightarrow> PrivilegeMode \<Rightarrow> bool \<Rightarrow> bool \<Rightarrow> bool
     \<Rightarrow> error + 'm walk_outcome" where
  "pageTableWalk ops vm mem pte0 va address privMode read write exec =
     (let levels = pte_levels pte0;
          root = pageTableRootPage vm * ucast (pageSize vm);
          pteAddr = 0
      in case walk_loop ops vm mem pte0 va root (levels - 1) [] of
           WalkFault evs \<Rightarrow> walk_fault read write exec mem evs
         | WalkLeaf pte ii evs \<Rightarrow>
             if privMode = User \<and> \<not> pte_user pte then walk_fault read write exec mem evs
             else if privMode = Supervisor \<and> pte_user pte \<and> \<not> supervisorOk vm
               then walk_fault read write exec mem evs
             else
               let pteRead = pte_read pte \<or> (execReadable vm \<and> pte_exec pte) in
               if (read \<and> \<not> pteRead) \<or> (write \<and> \<not> pte_write pte) \<or> (exec \<and> pte_exec pte)
                 then walk_fault read write exec mem evs
               else if list_ex (\<lambda>j. pte_ppn_i pte j \<noteq> 0) [0..<ii]
                 then walk_fault read write exec mem evs
               else if \<not> pte_accessed pte \<or> (write \<and> \<not> pte_dirty pte) then
                 (if faultOnFirstAccess vm then walk_fault read write exec mem evs
                  else
                    let pte1 = pte_set_accessed pte;
                        pte2 = (if write then pte_set_dirty pte1 else pte1);
                        evs' = evs @ [MemWrite (hartIx vm) pteAddr (pte_data pte2)]
                    in case write_pte ops mem (hartIx vm) pteAddr pte2 of
                         (ok, mem') \<Rightarrow>
                           if \<not> ok then walk_fault read write exec mem' evs'
                           else walk_finish vm mem' pte2 va address ii evs')
               else walk_finish vm mem pte va address ii evs)"

subsection \<open>translate\<close>

text \<open>The end of \<^verbatim>\<open>translate\<close>: a successful walk is cached in the buffer.\<close>

definition cache_walk :: "VirtMem \<Rightarrow> error + 'm walk_outcome \<Rightarrow> error + 'm outcome" where
  "cache_walk vm r =
     (case r of
        Inl e \<Rightarrow> Inl e
      | Inr w \<Rightarrow>
          Inr \<lparr>cause = w_cause w, pa = w_pa w,
               vm_after = (if w_cause w = NONE then vm\<lparr>tlb := insertEntry (tlb vm) (w_entry w)\<rparr> else vm),
               mem_after = w_mem w, accesses = w_accesses w\<rparr>)"

text \<open>The branch of \<^verbatim>\<open>translate\<close> that uses the entry found, at position \<open>i\<close>.\<close>

fun use_entry ::
  "VirtMem \<Rightarrow> 'm \<Rightarrow> nat \<Rightarrow> 64 word \<Rightarrow> PrivilegeMode \<Rightarrow> bool \<Rightarrow> bool \<Rightarrow> bool \<Rightarrow> error + 'm outcome" where
  "use_entry vm mem i va priv read write exec =
     (let entry = entries (tlb vm) ! i in
      if priv = User \<and> \<not> entry_user entry then page_fault read write exec vm mem []
      else if priv = Supervisor \<and> entry_user entry \<and> \<not> supervisorOk vm
        then page_fault read write exec vm mem []
      else
        let entryRead = entry_read entry \<or> (execReadable vm \<and> entry_exec entry) in
        if (read \<and> \<not> entryRead) \<or> (write \<and> \<not> entry_write entry) \<or> (exec \<and> \<not> entry_exec entry)
          then page_fault read write exec vm mem []
        else if \<not> entry_accessed entry \<or> (write \<and> \<not> entry_dirty entry) then
          (if faultOnFirstAccess vm then page_fault read write exec vm mem []
           else
             let entry1 = entry\<lparr>entry_accessed := True\<rparr>;
                 entry2 = (if write then entry1\<lparr>entry_dirty := True\<rparr> else entry1);
                 vm' = vm\<lparr>tlb := (tlb vm)\<lparr>entries := (entries (tlb vm))[i := entry2]\<rparr>\<rparr>
             in Inr \<lparr>cause = NONE,
                     pa = Some (push_bit (pageBits vm) (physPageNum entry2) OR (va AND pageMask vm)),
                     vm_after = vm', mem_after = mem, accesses = []\<rparr>)
        else
          Inr \<lparr>cause = NONE,
               pa = Some (push_bit (pageBits vm) (physPageNum entry) OR (va AND pageMask vm)),
               vm_after = vm, mem_after = mem, accesses = []\<rparr>)"

text \<open>
  \<^verbatim>\<open>VirtMem::translate\<close>.  \<^verbatim>\<open>size_t\<close> is 64 bits wide; \<^verbatim>\<open>Va32\<close> is built from the low
  32 bits of the address.
\<close>

fun translate ::
  "'m memory_ops \<Rightarrow> VirtMem \<Rightarrow> 'm \<Rightarrow> 64 word \<Rightarrow> PrivilegeMode \<Rightarrow> bool \<Rightarrow> bool \<Rightarrow> bool \<Rightarrow> error + 'm outcome" where
  "translate ops vm mem va priv read write exec =
     (if mode vm = Bare then
        Inr \<lparr>cause = NONE, pa = Some va, vm_after = vm, mem_after = mem, accesses = []\<rparr>
      else
        let virPageNum = drop_bit (pageBits vm) va in
        case findEntry (tlb vm) virPageNum (asid vm) of
          Some i \<Rightarrow> use_entry vm mem i va priv read write exec
        | None \<Rightarrow>
            if mode vm = Sv32 then
              cache_walk vm (pageTableWalk ops vm mem (Pte32 0) (Va32 (ucast va)) va priv read write exec)
            else if mode vm = Sv39 then
              (let mask = drop_bit 38 va AND 1;
                   mask = (if mask \<noteq> 0 then 0x1ffffff else mask)
               in if drop_bit 39 va \<noteq> mask then page_fault read write exec vm mem []
                  else cache_walk vm (pageTableWalk ops vm mem (Pte39 0) (Va39 va) va priv read write exec))
            else if mode vm = Sv48 then
              (let mask = drop_bit 47 va AND 1;
                   mask = (if mask \<noteq> 0 then 0xffff else mask)
               in if drop_bit 48 va \<noteq> mask then page_fault read write exec vm mem []
                  else cache_walk vm (pageTableWalk ops vm mem (Pte48 0) (Va48 va) va priv read write exec))
            else Inl AssertionFailed)"

subsection \<open>setPageSize\<close>

text \<open>
  \<^verbatim>\<open>static_cast<unsigned>(std::log2(x))\<close> for a positive 32-bit \<open>x\<close>: the position of
  its highest set bit.
\<close>

fun ilog2 :: "nat \<Rightarrow> nat" where
  "ilog2 n = (if n < 2 then 0 else Suc (ilog2 (n div 2)))"

text \<open>
  \<^verbatim>\<open>VirtMem::setPageSize\<close>, returning the flag and the translator after the call.
  \<^verbatim>\<open>bits\<close> is computed from \<^verbatim>\<open>pageSize_\<close>.  The branch for Sv48 has no
  \<^verbatim>\<open>return true\<close>: after the assignments control reaches the \<^verbatim>\<open>assert(0)\<close> at the end
  of the function, as it does for every other mode.
\<close>

fun setPageSize :: "VirtMem \<Rightarrow> 64 word \<Rightarrow> error + (bool \<times> VirtMem)" where
  "setPageSize vm sz =
     (if sz = 0 then Inr (False, vm)
      else if pageSize vm = 0 then Inl UndefinedBehaviour
      else
        let bits = ilog2 (unat (pageSize vm));
            p2Size = push_bit bits (1 :: 64 word)
        in
          if sz \<noteq> p2Size then Inr (False, vm)
          else if mode vm = Sv32 then
            (if sz \<noteq> 4096 then Inr (False, vm)
             else Inr (True, vm\<lparr>pageBits := bits, pageSize := ucast sz\<rparr>))
          else if mode vm = Sv39 then
            (if sz \<noteq> 4096 \<and> sz \<noteq> 2 * 1024 * 1024 \<and> sz \<noteq> 1024 * 1024 * 1024 then Inr (False, vm)
             else Inr (True, vm\<lparr>pageBits := bits, pageSize := ucast sz\<rparr>))
          else if mode vm = Sv48 then
            (if sz \<noteq> 4096 \<and> sz \<noteq> 2 * 1024 * 1024 \<and> sz \<noteq> 1024 * 1024 * 1024
                \<and> sz \<noteq> 512 * 1024 * 1024 * 1024 then Inr (False, vm)
             else Inl AssertionFailed)
          else Inl AssertionFailed)"

text \<open>\<^verbatim>\<open>void setMode(Mode m) { mode_ = m; }\<close>\<close>

definition setMode :: "Mode \<Rightarrow> VirtMem \<Rightarrow> VirtMem" where
  "setMode m vm = vm\<lparr>mode := m\<rparr>"

text \<open>The other setters of the header.  \<^verbatim>\<open>setPageTableRoot\<close> assigns the member the header
  calls \<^verbatim>\<open>pageTableRoot_\<close>; \<^verbatim>\<open>setAddressSpace\<close> takes a \<^verbatim>\<open>uint64_t\<close>.\<close>

definition setPageTableRoot :: "64 word \<Rightarrow> VirtMem \<Rightarrow> VirtMem" where
  "setPageTableRoot root vm = vm\<lparr>pageTableRootPage := root\<rparr>"

definition setAddressSpace :: "64 word \<Rightarrow> VirtMem \<Rightarrow> VirtMem" where
  "setAddressSpace a vm = vm\<lparr>asid := ucast a\<rparr>"

definition setExecReadable :: "bool \<Rightarrow> VirtMem \<Rightarrow> VirtMem" where
  "setExecReadable flag vm = vm\<lparr>execReadable := flag\<rparr>"

definition setSupervisorAccessUser :: "bool \<Rightarrow> VirtMem \<Rightarrow> VirtMem" where
  "setSupervisorAccessUser flag vm = vm\<lparr>supervisorOk := flag\<rparr>"

subsection \<open>The constructor\<close>

text \<open>
  Modelled from the spec: \<^verbatim>\<open>tlb_(tlbSize)\<close>, the construction of the class \<^verbatim>\<open>Tlb\<close> that
  is not among the sources, gives a buffer of \<^verbatim>\<open>tlbSize\<close> entries, none of them valid.
\<close>

definition newTlb :: "nat \<Rightarrow> Tlb" where
  "newTlb n = \<lparr>entries = replicate n emptyTlbEntry, tlb_clock = 0\<rparr>"

text \<open>
  \<^verbatim>\<open>VirtMem::VirtMem(hartIx, memory, pageSize, tlbSize)\<close>: the mode is Sv32,
  \<^verbatim>\<open>pageBits_\<close> is \<^verbatim>\<open>log2(pageSize_)\<close>, the two assertions ask for a power of two of
  at least 64, and \<^verbatim>\<open>pageMask_\<close> is \<^verbatim>\<open>pageSize_ - 1\<close>.  The members the initialiser list
  leaves out have the defaults of the header.
\<close>

definition newVirtMem :: "nat \<Rightarrow> 32 word \<Rightarrow> nat \<Rightarrow> error + VirtMem" where
  "newVirtMem hart ps tlbSize =
     (if ps = 0 then Inl UndefinedBehaviour
      else
        let bits = ilog2 (unat ps);
            p2PageSize = push_bit bits (1 :: 32 word)
        in
          if p2PageSize \<noteq> ps then Inl AssertionFailed
          else if ps < 64 then Inl AssertionFailed
          else
            Inr \<lparr>mode = Sv32, pageSize = ps, pageBits = bits, pageMask = ucast (ps - 1),
                 hartIx = hart, asid = 0, pageTableRootPage = 0, execReadable = False,
                 supervisorOk = False, faultOnFirstAccess = False, tlb = newTlb tlbSize\<rparr>)"

section \<open>The states of a translator\<close>

text \<open>
  The states a translator can be in.  It starts from a buffer without a valid entry:
  that is how the constructor leaves it, and how the invalidation of all entries leaves
  it, which the specification prescribes whenever the mode changes.  \<^verbatim>\<open>pageBits_\<close> is
  the logarithm of an \<^verbatim>\<open>unsigned\<close> and so below 32.  From there on the translator changes
  by calls of \<^verbatim>\<open>translate\<close> that return, over any memory, and by the setters that leave
  the mode alone.
\<close>

inductive reachable :: "'m memory_ops \<Rightarrow> VirtMem \<Rightarrow> bool" for ops :: "'m memory_ops" where
  invalidated:
    "pageBits vm < 32 \<Longrightarrow> list_all (\<lambda>e. \<not> entry_valid e) (entries (tlb vm)) \<Longrightarrow> reachable ops vm"
| translated:
    "reachable ops vm \<Longrightarrow> translate ops vm mem va priv read write exec = Inr r \<Longrightarrow>
     reachable ops (vm_after r)"
| root_set: "reachable ops vm \<Longrightarrow> reachable ops (setPageTableRoot root vm)"
| asid_set: "reachable ops vm \<Longrightarrow> reachable ops (setAddressSpace a vm)"
| mxr_set: "reachable ops vm \<Longrightarrow> reachable ops (setExecReadable flag vm)"
| sum_set: "reachable ops vm \<Longrightarrow> reachable ops (setSupervisorAccessUser flag vm)"

text \<open>
  What holds of the buffer in every such state: the key of each valid entry is the page
  number of an address that the check of the current mode lets through.
\<close>

definition passes_check :: "Mode \<Rightarrow> 64 word \<Rightarrow> bool" where
  "passes_check m va =
     ((m = Sv39 \<longrightarrow> (\<forall>i. 39 \<le> i \<and> i < 64 \<longrightarrow> bit va i = bit va 38))
      \<and> (m = Sv48 \<longrightarrow> (\<forall>i. 48 \<le> i \<and> i < 64 \<longrightarrow> bit va i = bit va 47)))"

definition key_checked :: "VirtMem \<Rightarrow> TlbEntry \<Rightarrow> bool" where
  "key_checked vm e =
     (entry_valid e \<longrightarrow>
        (\<exists>va. virtPageNum e = drop_bit (pageBits vm) va \<and> passes_check (mode vm) va))"

definition keys_checked :: "VirtMem \<Rightarrow> bool" where
  "keys_checked vm = (pageBits vm < 32 \<and> (\<forall>e \<in> set (entries (tlb vm)). key_checked vm e))"

text \<open>
  An Sv39 page table of one entry: at \<^verbatim>\<open>0x1000\<close> (root page 1, \<^verbatim>\<open>vpn2 = 0\<close>) a leaf with
  V R W U A D, \<^verbatim>\<open>ppn0_\<close> and \<^verbatim>\<open>ppn1_\<close> zero and \<^verbatim>\<open>ppn2_ = 1\<close>.
\<close>

definition sv39_table :: cell_memory where
  "sv39_table = [0x1000 \<mapsto> 0x1000000D7]"

section \<open>Calls that return\<close>

text \<open>A call returns when it ends in none of the ways of \<open>error\<close>.\<close>

definition returns :: "error + 'a \<Rightarrow> bool" where
  "returns x = (\<exists>y. x = Inr y)"

text \<open>Two page table entries of the same union.\<close>

fun same_layout :: "pte \<Rightarrow> pte \<Rightarrow> bool" where
  "same_layout (Pte32 a) (Pte32 b) = True"
| "same_layout (Pte39 a) (Pte39 b) = True"
| "same_layout (Pte48 a) (Pte48 b) = True"
| "same_layout p q = False"

section \<open>Configurations the code is run on\<close>

text \<open>
  A translator as the constructor leaves it for a page size of 4096 (\<^verbatim>\<open>pageBits_\<close> 12,
  \<^verbatim>\<open>pageMask_\<close> \<^verbatim>\<open>0xfff\<close>), with a buffer of two empty entries and the root of the
  page table at page 1.
\<close>

definition tlb2 :: Tlb where
  "tlb2 = \<lparr>entries = [emptyTlbEntry, emptyTlbEntry], tlb_clock = 0\<rparr>"

definition vm32 :: VirtMem where
  "vm32 =
     \<lparr>mode = Sv32, pageSize = 4096, pageBits = 12, pageMask = 0xfff, hartIx = 0, asid = 0,
      pageTableRootPage = 1, execReadable = False, supervisorOk = False,
      faultOnFirstAccess = False, tlb = tlb2\<rparr>"

definition vm39 :: VirtMem where "vm39 = setMode Sv39 vm32"

definition vm48 :: VirtMem where "vm48 = setMode Sv48 vm32"


text \<open>
  The Sv32 page table of the specification's first scenario: at \<^verbatim>\<open>0x1008\<close> (root page 1,
  \<^verbatim>\<open>vpn1 = 2\<close>) a pointer to page 2, at \<^verbatim>\<open>0x2000\<close> the leaf entry \<open>leaf\<close>; the address
  \<^verbatim>\<open>0x00800123\<close> has \<^verbatim>\<open>vpn1 = 2\<close>, \<^verbatim>\<open>vpn0 = 0\<close> and offset \<^verbatim>\<open>0x123\<close>.  The word at
  address 0 is ordinary memory holding 0.  Leaf entries used below, all with physical page 3:
  \<^verbatim>\<open>0xCDF\<close> has V R W X U A D; \<^verbatim>\<open>0xCD7\<close> has V R W U A D and X clear;
  \<^verbatim>\<open>0xC1F\<close> has V R W X U with A and D clear.
\<close>

definition sv32_tables :: "64 word \<Rightarrow> cell_memory" where
  "sv32_tables leaf = [0 \<mapsto> 0, 0x1008 \<mapsto> 0x801, 0x2000 \<mapsto> leaf]"

text \<open>The same table in a memory that has nothing at address 0.\<close>

definition sv32_tables_only :: "64 word \<Rightarrow> cell_memory" where
  "sv32_tables_only leaf = [0x1008 \<mapsto> 0x801, 0x2000 \<mapsto> leaf]"

text \<open>
  An attribute manager for one page of 4096 bytes with the default attribute, and the
  same with the page marked as attributed by word while \<^verbatim>\<open>wordPmas_\<close> is empty.
\<close>

definition pm_page :: PmaManager where
  "pm_page =
     \<lparr>pagePmas = [mkPma Attrib_Default], wordPmas = Map.empty, memSize = 4096,
      pmaPageSize = 4096, pageShift = 12, memMappedMasks = Map.empty\<rparr>"

definition pm_flagged :: PmaManager where
  "pm_flagged = pm_page\<lparr>pagePmas := [(mkPma Attrib_Default)\<lparr>word_flag := True\<rparr>]\<rparr>"

section \<open>Evaluation\<close>

text \<open>
  The functions with a single defining equation are unfolded only where a proof asks for
  it; \<open>eval_defs\<close> is what a run of the code on one of the configurations unfolds.
\<close>

declare translate.simps [simp del] pageTableWalk.simps [simp del] use_entry.simps [simp del]
  walk_finish.simps [simp del] walk_loop.simps [simp del] setPageSize.simps [simp del]
  ilog2.simps [simp del]

lemmas eval_defs =
  translate.simps pageTableWalk.simps use_entry.simps walk_finish.simps walk_loop.simps
  setPageSize.simps ilog2.simps setMode_def cell_ops_def cell_write_def
  findEntry_def tlb_match_def emptyTlbEntry_def insertEntry_def victim_def
  pte_valid_def pte_read_def pte_write_def pte_exec_def pte_user_def pte_global_def
  pte_accessed_def pte_dirty_def pte_set_accessed_def pte_set_dirty_def bitfield_def
  walk_fault_def page_fault_def pageFaultType_def cache_walk_def Let_def upt_rec

lemmas pma_defs =
  getPma_def getPageIx_def fracture_def mkPma_def unmappedPma_def Attrib_None_def Let_def

section \<open>The leaf permission check of the walk\<close>

text \<open>Whatever the mode, the level and the other bits of the entry: an execute access
  that reaches a leaf entry with the exec bit set ends in the fault of the walk.\<close>

lemma walk_exec_leaf_faults:
  assumes "walk_loop ops vm mem pte0 va (pageTableRootPage vm * ucast (pageSize vm))
             (pte_levels pte0 - 1) [] = WalkLeaf pte ii evs"
    and "pte_exec pte"
  shows "pageTableWalk ops vm mem pte0 va address priv read write True
           = walk_fault read write True mem evs"
  using assms by (simp add: pageTableWalk.simps Let_def)

text \<open>
  C1.  Claim: at a leaf entry, an execute access faults with \<open>INST_PAGE_FAULT\<close> when the
  entry's exec bit is clear and passes the permission check when it is set.  The walk
  tests \<^verbatim>\<open>(exec and pte.exec())\<close>, so it does the opposite: on the table above, a user's
  execute access to a leaf with X set (\<^verbatim>\<open>0xCDF\<close>) ends in \<open>INST_PAGE_FAULT\<close> after the
  two reads of the walk, and the same access to a leaf with X clear (\<^verbatim>\<open>0xCD7\<close>) is
  translated to \<^verbatim>\<open>0x3123\<close>.
\<close>

theorem walk_exec_check_inverted:
  "translate cell_ops vm32 (sv32_tables 0xCDF) 0x00800123 User False False True =
     Inr \<lparr>cause = INST_PAGE_FAULT, pa = None, vm_after = vm32, mem_after = sv32_tables 0xCDF,
          accesses = [MemRead 0x1008, MemRead 0x2000]\<rparr>
   \<and> pte_exec (Pte32 0xCDF)
   \<and> \<not> pte_exec (Pte32 0xCD7)
   \<and> (case translate cell_ops vm32 (sv32_tables 0xCD7) 0x00800123 User False False True of
         Inl e \<Rightarrow> None
       | Inr r \<Rightarrow> Some (cause r, pa r)) = Some (NONE, Some 0x3123)"
  by (simp add: eval_defs vm32_def tlb2_def sv32_tables_def)

section \<open>The write-back of the accessed and dirty bits\<close>

text \<open>The loop of the walk only reads; the one write a walk can make is the write-back,
  and its address is 0 whatever the address the leaf was read from.\<close>

lemma walk_loop_no_write:
  "walk_loop ops vm mem pte0 va root ii evs = r \<Longrightarrow>
   MemWrite h a d \<in> set (case r of WalkFault e \<Rightarrow> e | WalkLeaf p k e \<Rightarrow> e) \<Longrightarrow>
   MemWrite h a d \<in> set evs"
proof (induction ii arbitrary: root evs)
  case 0
  then show ?case
    by (auto simp: walk_loop.simps [of _ _ _ _ _ _ 0] Let_def split: option.splits if_splits)
next
  case (Suc n)
  show ?case
  proof (cases "walk_loop ops vm mem pte0 va root (Suc n) evs =
      walk_loop ops vm mem pte0 va
        (ucast (pte_ppn (the (read_pte ops mem (root + ucast (va_vpn va (Suc n) * pte_size pte0)) pte0))
           * pageSize vm)) n
        (evs @ [MemRead (root + ucast (va_vpn va (Suc n) * pte_size pte0))])")
    case True
    with Suc.prems Suc.IH [of _ "evs @ [MemRead (root + ucast (va_vpn va (Suc n) * pte_size pte0))]"]
    show ?thesis by auto
  next
    case False
    with Suc.prems show ?thesis
      by (auto simp: walk_loop.simps [of _ _ _ _ _ _ "Suc n"] Let_def split: option.splits if_splits)
  qed
qed

lemma walk_writes_only_address_zero:
  assumes res: "pageTableWalk ops vm (mem :: 'm) pte0 va address priv read write exec = Inr wo"
    and ev: "MemWrite h a d \<in> set (w_accesses wo)"
  shows "a = 0"
proof -
  define P where "P = (\<lambda>x :: error + 'm walk_outcome.
      \<forall>w. x = Inr w \<longrightarrow> (\<forall>h a d. MemWrite h a d \<in> set (w_accesses w) \<longrightarrow> a = 0))"
  have P_if: "\<And>c x y. P x \<Longrightarrow> P y \<Longrightarrow> P (if c then x else y)"
    by simp
  have P_prod: "\<And>f p. (\<And>ok m. P (f ok m)) \<Longrightarrow> P (case p of (ok, m) \<Rightarrow> f ok m)"
    by (simp add: split_beta)
  have P_fault: "\<And>m e. (\<forall>h a d. MemWrite h a d \<in> set e \<longrightarrow> a = 0) \<Longrightarrow>
      P (walk_fault read write exec m e)"
    by (auto simp: P_def walk_fault_def split: sum.splits)
  have P_finish: "\<And>m p k e. (\<forall>h a d. MemWrite h a d \<in> set e \<longrightarrow> a = 0) \<Longrightarrow>
      P (walk_finish vm m p va address k e)"
    by (auto simp: P_def walk_finish.simps Let_def split: if_splits)
  have "P (pageTableWalk ops vm mem pte0 va address priv read write exec)"
  proof (cases "walk_loop ops vm mem pte0 va (pageTableRootPage vm * ucast (pageSize vm))
                  (pte_levels pte0 - 1) []")
    case (WalkFault evs)
    from walk_loop_no_write [OF this] have "\<forall>h a d. MemWrite h a d \<in> set evs \<longrightarrow> a = 0"
      by auto
    then show ?thesis
      unfolding pageTableWalk.simps Let_def WalkFault walk_end.case by (rule P_fault)
  next
    case (WalkLeaf pte ii evs)
    from walk_loop_no_write [OF this] have e0: "\<forall>h a d. MemWrite h a d \<in> set evs \<longrightarrow> a = 0"
      by auto
    then have e1: "\<And>x. \<forall>h a d. MemWrite h a d \<in> set (evs @ [MemWrite (hartIx vm) 0 x]) \<longrightarrow> a = 0"
      by auto
    show ?thesis
      unfolding pageTableWalk.simps Let_def WalkLeaf walk_end.case
      by (intro P_if P_prod P_fault P_finish e0 e1)
  qed
  with res ev show ?thesis unfolding P_def by blast
qed

text \<open>
  C2.  Claim: when the leaf entry needs its accessed or dirty bit set and
  \<^verbatim>\<open>faultOnFirstAccess\<close> is false, the updated entry is written back at the address the
  leaf was read from, and nowhere else.  The walk passes the function-level \<^verbatim>\<open>pteAddr\<close>,
  which is 0, to \<^verbatim>\<open>memory_.write\<close>: a user's write through the leaf \<^verbatim>\<open>0xC1F\<close> read at
  \<^verbatim>\<open>0x2000\<close> succeeds, the one write of the call stores the updated entry \<^verbatim>\<open>0xCDF\<close> at
  address 0, and the entry at \<^verbatim>\<open>0x2000\<close> is as before.
\<close>

theorem walk_writes_pte_to_address_zero:
  "(case translate cell_ops vm32 (sv32_tables 0xC1F) 0x00800123 User False True False of
      Inl e \<Rightarrow> None
    | Inr r \<Rightarrow> Some (cause r, pa r, accesses r, mem_after r 0, mem_after r 0x2000))
   = Some (NONE, Some 0x3123, [MemRead 0x1008, MemRead 0x2000, MemWrite 0 0 0xCDF],
           Some 0xCDF, Some 0xC1F)"
  by (simp add: eval_defs vm32_def tlb2_def sv32_tables_def)

section \<open>A hit in the buffer against the walk that filled it\<close>

text \<open>
  C3.  Claim: once a successful walk has installed an entry, a second translation of the
  same page with the same privilege, access kind and flags gives the physical address and
  fault classification of the walk.  For an execute access it does not: the walk lets the
  access to the leaf \<^verbatim>\<open>0xCD7\<close> (X clear) through and installs the entry at position 0; the
  second call finds it, tests \<^verbatim>\<open>(exec and not entry->exec_)\<close> and returns
  \<open>INST_PAGE_FAULT\<close> without touching memory.
\<close>

theorem hit_after_exec_walk_differs:
  "(case translate cell_ops vm32 (sv32_tables 0xCD7) 0x00800123 User False False True of
      Inl e \<Rightarrow> None
    | Inr r \<Rightarrow>
        (case translate cell_ops (vm_after r) (mem_after r) 0x00800123 User False False True of
           Inl e \<Rightarrow> None
         | Inr r' \<Rightarrow>
             Some (cause r, pa r, findEntry (tlb (vm_after r)) (drop_bit 12 0x00800123) 0,
                   cause r', pa r', accesses r')))
   = Some (NONE, Some 0x3123, Some 0, INST_PAGE_FAULT, None, [])"
  by (simp add: eval_defs vm32_def tlb2_def sv32_tables_def)

section \<open>setPageSize\<close>

text \<open>
  C4.  Claim: \<^verbatim>\<open>setPageSize(size)\<close> returns true and installs \<open>size\<close> exactly when
  \<open>size\<close> is a power of two the mode permits.  The function compares \<open>size\<close> with the
  power of two computed from the page size already configured, so in Sv39 with a page
  size of 4096 the permitted size of 2 MiB is refused and the translator is unchanged; and
  in Sv48 the permitted size 4096 ends at the assertion instead of returning true.
\<close>

theorem setPageSize_refuses_permitted_size:
  "setPageSize vm39 (2 * 1024 * 1024) = Inr (False, vm39)
   \<and> setPageSize vm48 4096 = Inl AssertionFailed"
  by (simp add: eval_defs vm39_def vm48_def vm32_def)

section \<open>The attribute manager\<close>

subsection \<open>getPma\<close>

text \<open>
  C5.  Claim: \<^verbatim>\<open>getPma\<close> is total and never signals an error; in particular it returns
  the unmapped attribute when the page is marked as attributed by word and
  \<^verbatim>\<open>wordPmas\<close> has no entry for the word.  In that case \<^verbatim>\<open>wordPmas_.at\<close> throws:
\<close>

theorem getPma_throws_on_missing_word:
  "unat (getPageIx pm_flagged 0x10) < length (pagePmas pm_flagged)
   \<and> word_flag (pagePmas pm_flagged ! unat (getPageIx pm_flagged 0x10))
   \<and> wordPmas pm_flagged (drop_bit 2 0x10) = None
   \<and> getPma pm_flagged 0x10 = Inl OutOfRange"
  by (simp add: pma_defs pm_flagged_def pm_page_def)

text \<open>
  C5, as amended.  \<^verbatim>\<open>getPma\<close> returns the all-zero unmapped attribute for every
  address whose page index is out of range, and it fails in exactly one case: the page
  index is in range, the page's sub-page flag is set and \<^verbatim>\<open>wordPmas\<close> has no entry for
  the word index \<^verbatim>\<open>addr >> 2\<close>; the failure is the \<^verbatim>\<open>std::out_of_range\<close> of
  \<^verbatim>\<open>wordPmas_.at\<close>.
\<close>

theorem getPma_fails_only_on_missing_word:
  "(length (pagePmas pm) \<le> unat (getPageIx pm addr) \<longrightarrow> getPma pm addr = Inr unmappedPma)
   \<and> attrib unmappedPma = 0
   \<and> ((\<exists>e. getPma pm addr = Inl e) \<longleftrightarrow>
        unat (getPageIx pm addr) < length (pagePmas pm)
        \<and> word_flag (pagePmas pm ! unat (getPageIx pm addr))
        \<and> wordPmas pm (drop_bit 2 addr) = None)
   \<and> (\<forall>e. getPma pm addr = Inl e \<longrightarrow> e = OutOfRange)"
  by (auto simp: getPma_def Let_def unmappedPma_def mkPma_def Attrib_None_def split: option.splits)

theorem getPma_fails_only_on_missing_word_witness:
  "getPma pm_page 0x1000 = Inr unmappedPma
   \<and> (\<exists>e. getPma pm_flagged 0x10 = Inl e)
   \<and> getPma pm_page 0x10 = Inr (mkPma Attrib_Default)"
proof -
  have oob: "length (pagePmas pm_page) \<le> unat (getPageIx pm_page 0x1000)"
    by (simp add: pma_defs pm_page_def)
  have missing: "unat (getPageIx pm_flagged 0x10) < length (pagePmas pm_flagged)
      \<and> word_flag (pagePmas pm_flagged ! unat (getPageIx pm_flagged 0x10))
      \<and> wordPmas pm_flagged (drop_bit 2 0x10) = None"
    by (simp add: pma_defs pm_flagged_def pm_page_def)
  have page: "getPma pm_page 0x10 = Inr (mkPma Attrib_Default)"
    by (simp add: pma_defs pm_page_def)
  from getPma_fails_only_on_missing_word [of pm_page "0x1000"] oob
  have "getPma pm_page 0x1000 = Inr unmappedPma" by blast
  moreover from getPma_fails_only_on_missing_word [of pm_flagged "0x10"] missing
  have "\<exists>e. getPma pm_flagged 0x10 = Inl e" by blast
  ultimately show ?thesis using page by blast
qed

subsection \<open>fracture\<close>

text \<open>What the loop of \<^verbatim>\<open>fracture\<close> leaves in \<^verbatim>\<open>wordPmas_\<close>: the copy at the \<open>n\<close> word
  indices from \<open>wordIx\<close> on, and the old content elsewhere.\<close>

lemma fracture_loop_lookup:
  "n < 2 ^ 64 \<Longrightarrow>
   fracture_loop wp wordIx pma n k = (if unat (k - wordIx) < n then Some pma else wp k)"
proof (induction n arbitrary: wp wordIx)
  case 0
  then show ?case by simp
next
  case (Suc n)
  show ?case
  proof (cases "k = wordIx")
    case True
    have "wordIx - (wordIx + 1) = - 1" by simp
    then have "unat (wordIx - (wordIx + 1)) = 2 ^ 64 - 1"
      by (simp add: unsigned_minus_1_eq_mask mask_eq_exp_minus_1)
    with Suc True show ?thesis by simp
  next
    case False
    then have nz: "k - wordIx \<noteq> 0" by simp
    have e: "k - (wordIx + 1) = (k - wordIx) - 1" by simp
    have "unat ((k - wordIx) - 1) = unat (k - wordIx) - 1"
      using nz by (rule unat_minus_one)
    then have "unat (k - (wordIx + 1)) = unat (k - wordIx) - 1"
      by (simp only: e)
    moreover from nz have "0 < unat (k - wordIx)" by (simp add: unat_gt_0)
    ultimately show ?thesis using Suc False by auto
  qed
qed

lemma fracture_keeps_pagePmas:
  "fracture pm addr = Inr pm' \<Longrightarrow> pagePmas pm' = pagePmas pm"
  by (auto simp: fracture_def Let_def split: if_splits)

text \<open>
  C6.  Claim: after \<^verbatim>\<open>fracture(addr)\<close> on a page not yet fractured, the page's sub-page
  flag is set, \<^verbatim>\<open>wordPmas\<close> holds the page's attribute for every word of the page, and
  \<^verbatim>\<open>getPma\<close> on the page returns the per-word entry.  \<^verbatim>\<open>fracture\<close> sets the flag in
  its local copy of the page entry only: after \<^verbatim>\<open>fracture(0x10)\<close> on the one-page
  manager the flag of \<^verbatim>\<open>pagePmas_[0]\<close> is still false, the word entry for \<^verbatim>\<open>0x10\<close> exists
  (and carries the flag), and \<^verbatim>\<open>getPma(0x10)\<close> returns the page entry.
\<close>

theorem fracture_leaves_page_flag_clear:
  "(case fracture pm_page 0x10 of
      Inl e \<Rightarrow> None
    | Inr pm' \<Rightarrow>
        Some (map word_flag (pagePmas pm'), wordPmas pm' (drop_bit 2 0x10), getPma pm' 0x10))
   = Some ([False], Some ((mkPma Attrib_Default)\<lparr>word_flag := True\<rparr>),
           Inr (mkPma Attrib_Default))"
  by (simp add: pma_defs pm_page_def fracture_loop_lookup)

section \<open>The Sv48 address decoder\<close>

text \<open>The offsets of the fields of the six structs, by the rule of the layout.\<close>

lemma bit_field_layout:
  "field_offsets 0 [1, 1, 1, 1, 1, 1, 1, 1, 2, 10, 12] = [0, 1, 2, 3, 4, 5, 6, 7, 8, 10, 20]"
  "field_offsets 0 [1, 1, 1, 1, 1, 1, 1, 1, 2, 9, 9, 26, 10] = [0, 1, 2, 3, 4, 5, 6, 7, 8, 10, 19, 32, 64]"
  "field_offsets 0 [1, 1, 1, 1, 1, 1, 1, 1, 2, 9, 9, 9, 17, 10]
     = [0, 1, 2, 3, 4, 5, 6, 7, 8, 10, 19, 32, 41, 64]"
  "field_offsets 0 [12, 10, 10] = [0, 12, 22]"
  "field_offsets 0 [12, 9, 9, 9] = [0, 12, 21, 32]"
  "field_offsets 0 [12, 9, 9, 9, 9] = [0, 12, 21, 32, 41]"
  by code_simp+

lemma Va48_vpn3_is_vpn2: "va_vpn (Va48 d) 3 = va_vpn (Va48 d) 2"
  by (simp add: Va48_vpn3_def Va48_vpn2_def)

text \<open>
  C8.  Claim: \<^verbatim>\<open>vpn(3)\<close> of an Sv48 address is its bits 47:39.  \<^verbatim>\<open>Va48::vpn3()\<close> returns
  the field \<^verbatim>\<open>vpn2_\<close>, which the layout places at bits 40:32: for the address \<open>2 ^ 39\<close>,
  whose bits 47:39 are 1, \<^verbatim>\<open>vpn(3)\<close> is \<^verbatim>\<open>0x80\<close>, the value of \<^verbatim>\<open>vpn(2)\<close> and of bits
  40:32.
\<close>

theorem Va48_vpn3_returns_vpn2:
  "va_vpn (Va48 (push_bit 39 1)) 3 = 0x80
   \<and> va_vpn (Va48 (push_bit 39 1)) 2 = 0x80
   \<and> bitfield (push_bit 39 1 :: 64 word) 32 9 = 0x80
   \<and> bitfield (push_bit 39 1 :: 64 word) 39 9 = 1"
  by (simp add: Va48_vpn3_def Va48_vpn2_def bitfield_def)

section \<open>The canonical-address check\<close>

text \<open>The test \<^verbatim>\<open>(va >> k) & 1\<close> reads bit \<open>k\<close>; a right shift by \<open>k\<close> is all ones
  (is zero) exactly when every bit from \<open>k\<close> up is set (is clear).\<close>

lemma low_bit_of_shift: "(drop_bit k va AND 1 \<noteq> 0) = bit va k" for va :: "64 word"
  by (simp add: and_one_eq bit_iff_odd_drop_bit mod_2_eq_odd)

lemma high_bits_ones:
  "(drop_bit k va = mask (64 - k)) = (\<forall>i. k \<le> i \<and> i < 64 \<longrightarrow> bit va i)" for va :: "64 word"
proof
  assume eq: "drop_bit k va = mask (64 - k)"
  show "\<forall>i. k \<le> i \<and> i < 64 \<longrightarrow> bit va i"
  proof (intro allI impI)
    fix i assume i: "k \<le> i \<and> i < 64"
    have "bit (drop_bit k va) (i - k) = bit (mask (64 - k) :: 64 word) (i - k)"
      by (simp only: eq)
    with i show "bit va i" by (auto simp: bit_simps)
  qed
next
  assume all: "\<forall>i. k \<le> i \<and> i < 64 \<longrightarrow> bit va i"
  show "drop_bit k va = mask (64 - k)"
  proof (rule bit_word_eqI)
    fix n assume "n < LENGTH(64)"
    show "bit (drop_bit k va) n = bit (mask (64 - k) :: 64 word) n"
      using all [rule_format, of "k + n"] bit_imp_le_length [of va "k + n"]
      by (auto simp: bit_simps)
  qed
qed

lemma high_bits_zeros:
  "(drop_bit k va = 0) = (\<forall>i. k \<le> i \<and> i < 64 \<longrightarrow> \<not> bit va i)" for va :: "64 word"
proof
  assume eq: "drop_bit k va = 0"
  show "\<forall>i. k \<le> i \<and> i < 64 \<longrightarrow> \<not> bit va i"
  proof (intro allI impI)
    fix i assume i: "k \<le> i \<and> i < 64"
    have "bit (drop_bit k va) (i - k) = bit (0 :: 64 word) (i - k)"
      by (simp only: eq)
    with i show "\<not> bit va i" by (simp add: bit_simps)
  qed
next
  assume all: "\<forall>i. k \<le> i \<and> i < 64 \<longrightarrow> \<not> bit va i"
  show "drop_bit k va = 0"
  proof (rule bit_word_eqI)
    fix n assume "n < LENGTH(64)"
    show "bit (drop_bit k va) n = bit (0 :: 64 word) n"
      using all [rule_format, of "k + n"] bit_imp_le_length [of va "k + n"]
      by (auto simp: bit_simps)
  qed
qed

text \<open>The comparison \<^verbatim>\<open>(va >> 39) != mask\<close> of the Sv39 branch, and that of the Sv48
  branch, in terms of the bits of the address.\<close>

lemma sv39_check:
  "(drop_bit 39 va \<noteq> (if drop_bit 38 va AND 1 \<noteq> 0 then 0x1ffffff else drop_bit 38 va AND 1))
     = (\<exists>i. 39 \<le> i \<and> i < 64 \<and> bit va i \<noteq> bit va 38)" for va :: "64 word"
proof -
  have m: "(0x1ffffff :: 64 word) = mask (64 - 39)" by (simp add: mask_eq_exp_minus_1)
  show ?thesis
  proof (cases "bit va 38")
    case True
    then show ?thesis
      unfolding low_bit_of_shift m by (simp only: if_True high_bits_ones) auto
  next
    case False
    then have z: "drop_bit 38 va AND 1 = 0" using low_bit_of_shift [of 38 va] by simp
    from False show ?thesis
      unfolding z by (simp add: high_bits_zeros)
  qed
qed

lemma sv48_check:
  "(drop_bit 48 va \<noteq> (if drop_bit 47 va AND 1 \<noteq> 0 then 0xffff else drop_bit 47 va AND 1))
     = (\<exists>i. 48 \<le> i \<and> i < 64 \<and> bit va i \<noteq> bit va 47)" for va :: "64 word"
proof -
  have m: "(0xffff :: 64 word) = mask (64 - 48)" by (simp add: mask_eq_exp_minus_1)
  show ?thesis
  proof (cases "bit va 47")
    case True
    then show ?thesis
      unfolding low_bit_of_shift m by (simp only: if_True high_bits_ones) auto
  next
    case False
    then have z: "drop_bit 47 va AND 1 = 0" using low_bit_of_shift [of 47 va] by simp
    from False show ?thesis
      unfolding z by (simp add: high_bits_zeros)
  qed
qed

lemma pageFaultType_kind:
  "read \<or> write \<or> exec \<Longrightarrow>
   pageFaultType read write exec =
     Inr (if exec then INST_PAGE_FAULT else if read then LOAD_PAGE_FAULT else STORE_PAGE_FAULT)"
  by (auto simp: pageFaultType_def)

text \<open>
  On a miss in the buffer: in Sv39 an address whose bits 63:39 are not all equal to bit 38,
  and in Sv48 an address whose bits 63:48 are not all equal to bit 47, gets the page fault
  of the access kind, and the call touches neither the memory nor the translator; in Sv32
  the call is the walk of the low 32 bits of the address, whatever the bits above; in Bare
  mode the address is returned as it is.
\<close>

lemma noncanonical_miss_faults:
  assumes kind: "read \<or> write \<or> exec"
  shows "(findEntry (tlb vm) (drop_bit (pageBits vm) va) (asid vm) = None
          \<and> (mode vm = Sv39 \<and> (\<exists>i. 39 \<le> i \<and> i < 64 \<and> bit va i \<noteq> bit va 38)
             \<or> mode vm = Sv48 \<and> (\<exists>i. 48 \<le> i \<and> i < 64 \<and> bit va i \<noteq> bit va 47))
          \<longrightarrow> translate ops vm mem va priv read write exec =
                Inr \<lparr>cause = (if exec then INST_PAGE_FAULT
                              else if read then LOAD_PAGE_FAULT else STORE_PAGE_FAULT),
                     pa = None, vm_after = vm, mem_after = mem, accesses = []\<rparr>)
       \<and> (findEntry (tlb vm) (drop_bit (pageBits vm) va) (asid vm) = None \<and> mode vm = Sv32
          \<longrightarrow> translate ops vm mem va priv read write exec =
                cache_walk vm
                  (pageTableWalk ops vm mem (Pte32 0) (Va32 (ucast va)) va priv read write exec))
       \<and> (mode vm = Bare
          \<longrightarrow> translate ops vm mem va priv read write exec =
                Inr \<lparr>cause = NONE, pa = Some va, vm_after = vm, mem_after = mem, accesses = []\<rparr>)"
proof (intro conjI impI)
  assume a: "findEntry (tlb vm) (drop_bit (pageBits vm) va) (asid vm) = None
     \<and> (mode vm = Sv39 \<and> (\<exists>i. 39 \<le> i \<and> i < 64 \<and> bit va i \<noteq> bit va 38)
        \<or> mode vm = Sv48 \<and> (\<exists>i. 48 \<le> i \<and> i < 64 \<and> bit va i \<noteq> bit va 47))"
  then have miss: "findEntry (tlb vm) (drop_bit (pageBits vm) va) (asid vm) = None" by blast
  from a consider
      (sv39) "mode vm = Sv39" "\<exists>i. 39 \<le> i \<and> i < 64 \<and> bit va i \<noteq> bit va 38"
    | (sv48) "mode vm = Sv48" "\<exists>i. 48 \<le> i \<and> i < 64 \<and> bit va i \<noteq> bit va 47"
    by blast
  then show "translate ops vm mem va priv read write exec =
      Inr \<lparr>cause = (if exec then INST_PAGE_FAULT else if read then LOAD_PAGE_FAULT else STORE_PAGE_FAULT),
           pa = None, vm_after = vm, mem_after = mem, accesses = []\<rparr>"
  proof cases
    case sv39
    from sv39(2)
    have "drop_bit 39 va \<noteq> (if drop_bit 38 va AND 1 \<noteq> 0 then 0x1ffffff else drop_bit 38 va AND 1)"
      by (simp only: sv39_check)
    with sv39(1) miss show ?thesis
      by (simp add: translate.simps Let_def page_fault_def pageFaultType_kind [OF kind])
  next
    case sv48
    from sv48(2)
    have "drop_bit 48 va \<noteq> (if drop_bit 47 va AND 1 \<noteq> 0 then 0xffff else drop_bit 47 va AND 1)"
      by (simp only: sv48_check)
    with sv48(1) miss show ?thesis
      by (simp add: translate.simps Let_def page_fault_def pageFaultType_kind [OF kind])
  qed
next
  assume "findEntry (tlb vm) (drop_bit (pageBits vm) va) (asid vm) = None \<and> mode vm = Sv32"
  then show "translate ops vm mem va priv read write exec =
      cache_walk vm (pageTableWalk ops vm mem (Pte32 0) (Va32 (ucast va)) va priv read write exec)"
    by (simp add: translate.simps)
next
  assume "mode vm = Bare"
  then show "translate ops vm mem va priv read write exec =
      Inr \<lparr>cause = NONE, pa = Some va, vm_after = vm, mem_after = mem, accesses = []\<rparr>"
    by (simp add: translate.simps)
qed

section \<open>The kind of fault\<close>

lemma walk_fault_cause:
  "walk_fault read write exec mem evs = Inr wo \<Longrightarrow> pageFaultType read write exec = Inr (w_cause wo)"
  by (auto simp: walk_fault_def split: sum.splits)

lemma page_fault_cause:
  "page_fault read write exec vm mem evs = Inr r \<Longrightarrow> pageFaultType read write exec = Inr (cause r)"
  by (auto simp: page_fault_def split: sum.splits)

lemma walk_finish_cause:
  "walk_finish vm mem pte va address ii evs = Inr wo \<Longrightarrow> w_cause wo = NONE"
  by (auto simp: walk_finish.simps Let_def split: if_splits)

lemma pageTableWalk_cause:
  assumes "pageTableWalk ops vm mem pte0 va address priv read write exec = Inr wo"
    and "w_cause wo \<noteq> NONE"
  shows "pageFaultType read write exec = Inr (w_cause wo)"
  using assms
  by (auto simp: pageTableWalk.simps Let_def
      split: walk_end.splits if_splits prod.splits
      dest: walk_fault_cause walk_finish_cause)

lemma cache_walk_cause:
  "cache_walk vm w = Inr r \<Longrightarrow> \<exists>wo. w = Inr wo \<and> cause r = w_cause wo"
  by (auto simp: cache_walk_def split: sum.splits)

text \<open>The three ways the branch of \<^verbatim>\<open>translate\<close> that uses a buffer entry can end, for
  every memory at once: the fault, the success that first marks the entry, and the
  success that leaves it as it is.\<close>

lemma use_entry_cases [case_names fault update plain]:
  fixes vm :: VirtMem and i :: nat
  defines "entry \<equiv> entries (tlb vm) ! i"
  obtains
    (fault) "\<And>mem :: 'm. use_entry vm mem i va priv read write exec = page_fault read write exec vm mem []"
  | (update) "\<not> faultOnFirstAccess vm" and "\<not> entry_accessed entry \<or> (write \<and> \<not> entry_dirty entry)"
      and "\<And>mem :: 'm. use_entry vm mem i va priv read write exec =
         Inr \<lparr>cause = NONE,
             pa = Some (push_bit (pageBits vm)
                    (physPageNum (if write then entry\<lparr>entry_accessed := True, entry_dirty := True\<rparr>
                                  else entry\<lparr>entry_accessed := True\<rparr>))
                  OR (va AND pageMask vm)),
             vm_after = vm\<lparr>tlb := (tlb vm)\<lparr>entries := (entries (tlb vm))
                [i := (if write then entry\<lparr>entry_accessed := True, entry_dirty := True\<rparr>
                       else entry\<lparr>entry_accessed := True\<rparr>)]\<rparr>\<rparr>,
             mem_after = mem, accesses = []\<rparr>"
  | (plain) "entry_accessed entry" and "write \<longrightarrow> entry_dirty entry"
      and "\<And>mem :: 'm. use_entry vm mem i va priv read write exec =
          Inr \<lparr>cause = NONE,
           pa = Some (push_bit (pageBits vm) (physPageNum entry) OR (va AND pageMask vm)),
           vm_after = vm, mem_after = mem, accesses = []\<rparr>"
proof -
  let ?c1 = "priv = User \<and> \<not> entry_user entry"
  let ?c2 = "priv = Supervisor \<and> entry_user entry \<and> \<not> supervisorOk vm"
  let ?c3 = "(read \<and> \<not> (entry_read entry \<or> (execReadable vm \<and> entry_exec entry)))
               \<or> (write \<and> \<not> entry_write entry) \<or> (exec \<and> \<not> entry_exec entry)"
  let ?c4 = "\<not> entry_accessed entry \<or> (write \<and> \<not> entry_dirty entry)"
  let ?c5 = "faultOnFirstAccess vm"
  have unfold: "\<And>mem :: 'm. use_entry vm mem i va priv read write exec =
      (if ?c1 then page_fault read write exec vm mem []
       else if ?c2 then page_fault read write exec vm mem []
       else if ?c3 then page_fault read write exec vm mem []
       else if ?c4 then
         (if ?c5 then page_fault read write exec vm mem []
          else Inr \<lparr>cause = NONE,
             pa = Some (push_bit (pageBits vm)
                    (physPageNum (if write then entry\<lparr>entry_accessed := True, entry_dirty := True\<rparr>
                                  else entry\<lparr>entry_accessed := True\<rparr>))
                  OR (va AND pageMask vm)),
             vm_after = vm\<lparr>tlb := (tlb vm)\<lparr>entries := (entries (tlb vm))
                [i := (if write then entry\<lparr>entry_accessed := True, entry_dirty := True\<rparr>
                       else entry\<lparr>entry_accessed := True\<rparr>)]\<rparr>\<rparr>,
             mem_after = mem, accesses = []\<rparr>)
       else Inr \<lparr>cause = NONE,
           pa = Some (push_bit (pageBits vm) (physPageNum entry) OR (va AND pageMask vm)),
           vm_after = vm, mem_after = mem, accesses = []\<rparr>)"
    unfolding use_entry.simps Let_def entry_def by (rule refl)
  consider (a) ?c1 | (b) "\<not> ?c1" ?c2 | (c) "\<not> ?c1" "\<not> ?c2" ?c3
    | (d) "\<not> ?c1" "\<not> ?c2" "\<not> ?c3" ?c4 ?c5
    | (e) "\<not> ?c1" "\<not> ?c2" "\<not> ?c3" ?c4 "\<not> ?c5"
    | (f) "\<not> ?c1" "\<not> ?c2" "\<not> ?c3" "\<not> ?c4"
    by blast
  then show ?thesis
  proof cases
    case a
    show ?thesis by (rule fault) (simp only: unfold if_P [OF a])
  next
    case b
    show ?thesis by (rule fault) (simp only: unfold if_not_P [OF b(1)] if_P [OF b(2)])
  next
    case c
    show ?thesis
      by (rule fault) (simp only: unfold if_not_P [OF c(1)] if_not_P [OF c(2)] if_P [OF c(3)])
  next
    case d
    show ?thesis
      by (rule fault)
        (simp only: unfold if_not_P [OF d(1)] if_not_P [OF d(2)] if_not_P [OF d(3)]
          if_P [OF d(4)] if_P [OF d(5)])
  next
    case e
    show ?thesis
      by (rule update [OF e(5) e(4)])
        (simp only: unfold if_not_P [OF e(1)] if_not_P [OF e(2)] if_not_P [OF e(3)]
          if_P [OF e(4)] if_not_P [OF e(5)])
  next
    case f
    from f(4) have "entry_accessed entry" and "write \<longrightarrow> entry_dirty entry" by blast+
    then show ?thesis
      by (rule plain)
        (simp only: unfold if_not_P [OF f(1)] if_not_P [OF f(2)] if_not_P [OF f(3)]
          if_not_P [OF f(4)])
  qed
qed

lemma use_entry_cause:
  assumes u: "use_entry vm (mem :: 'm) i va priv read write exec = Inr r" and "cause r \<noteq> NONE"
  shows "pageFaultType read write exec = Inr (cause r)"
proof (cases rule: use_entry_cases [where 'm = 'm, of vm i va priv read "write" exec])
  case fault
  from u show ?thesis unfolding fault by (rule page_fault_cause)
next
  case update
  from u assms(2) show ?thesis unfolding update(3) by auto
next
  case plain
  from u assms(2) show ?thesis unfolding plain(3) by auto
qed

lemma translate_cause:
  assumes "translate ops vm mem va priv read write exec = Inr r" and "cause r \<noteq> NONE"
  shows "pageFaultType read write exec = Inr (cause r)"
proof (cases "mode vm = Bare")
  case True
  with assms show ?thesis by (auto simp: translate.simps)
next
  case notBare: False
  show ?thesis
  proof (cases "findEntry (tlb vm) (drop_bit (pageBits vm) va) (asid vm)")
    case (Some i)
    with notBare assms have "use_entry vm mem i va priv read write exec = Inr r"
      by (simp add: translate.simps)
    from use_entry_cause [OF this assms(2)] show ?thesis .
  next
    case None
    with notBare assms consider
        (walk) pte0 v where
          "cache_walk vm (pageTableWalk ops vm mem pte0 v va priv read write exec) = Inr r"
      | (canon) "page_fault read write exec vm mem [] = Inr r"
      by (auto simp: translate.simps Let_def split: if_splits)
    then show ?thesis
    proof cases
      case walk
      then obtain wo where w: "pageTableWalk ops vm mem pte0 v va priv read write exec = Inr wo"
        and c: "cause r = w_cause wo"
        by (auto dest: cache_walk_cause)
      from assms(2) c have "w_cause wo \<noteq> NONE" by simp
      from pageTableWalk_cause [OF w this] c show ?thesis by simp
    next
      case canon
      then show ?thesis by (rule page_fault_cause)
    qed
  qed
qed

text \<open>
  \<^verbatim>\<open>translate\<close> does return in the modes Bare, Sv32 and Sv39 whenever an access kind is
  given: no assertion is reached and no shift is undefined.  (A walk that succeeds in Sv48
  shifts a 32-bit operand by 39.)
\<close>

lemma returns_if: "returns a \<Longrightarrow> returns b \<Longrightarrow> returns (if c then a else b)"
  by simp

lemma returns_prod: "(\<And>a b. returns (f a b)) \<Longrightarrow> returns (case p of (a, b) \<Rightarrow> f a b)"
  by (cases p) simp

lemma walk_fault_returns:
  "read \<or> write \<or> exec \<Longrightarrow> returns (walk_fault read write exec mem evs)"
  by (auto simp: returns_def walk_fault_def pageFaultType_def)

lemma page_fault_returns:
  "read \<or> write \<or> exec \<Longrightarrow> returns (page_fault read write exec vm mem evs)"
  by (auto simp: returns_def page_fault_def pageFaultType_def)

lemma read_pte_layout: "read_pte ops mem addr pte0 = Some pte \<Longrightarrow> same_layout pte pte0"
  by (cases pte0) auto

lemma walk_loop_layout:
  "walk_loop ops vm mem pte0 va root ii evs = WalkLeaf pte k evs' \<Longrightarrow> same_layout pte pte0"
proof (induction ii arbitrary: root evs)
  case 0
  then show ?case
    by (auto simp: walk_loop.simps [of _ _ _ _ _ _ 0] Let_def
        split: option.splits if_splits dest: read_pte_layout)
next
  case (Suc n)
  from Suc.prems show ?case
    by (auto simp: walk_loop.simps [of _ _ _ _ _ _ "Suc n"] Let_def
        split: option.splits if_splits dest: read_pte_layout Suc.IH)
qed

lemma pte_set_bit_layout: "same_layout (pte_set_bit n p) q = same_layout p q"
  by (cases p; cases q) auto

lemma walk_finish_returns:
  "same_layout pte (Pte32 0) \<or> same_layout pte (Pte39 0) \<Longrightarrow>
   returns (walk_finish vm mem pte va address ii evs)"
  by (cases pte) (auto simp: returns_def walk_finish.simps Let_def upt_rec)

lemma pageTableWalk_returns:
  assumes kind: "read \<or> write \<or> exec" and lay: "pte0 = Pte32 0 \<or> pte0 = Pte39 0"
  shows "returns (pageTableWalk ops vm mem pte0 va address priv read write exec)"
proof (cases "walk_loop ops vm mem pte0 va (pageTableRootPage vm * ucast (pageSize vm))
                (pte_levels pte0 - 1) []")
  case (WalkFault evs)
  then show ?thesis
    using walk_fault_returns [OF kind] by (simp add: pageTableWalk.simps Let_def)
next
  case (WalkLeaf pte ii evs)
  from walk_loop_layout [OF this] lay
  have l: "same_layout pte (Pte32 0) \<or> same_layout pte (Pte39 0)" by auto
  then have l2:
    "same_layout (if write then pte_set_dirty (pte_set_accessed pte) else pte_set_accessed pte) (Pte32 0)
     \<or> same_layout (if write then pte_set_dirty (pte_set_accessed pte) else pte_set_accessed pte) (Pte39 0)"
    by (simp add: pte_set_accessed_def pte_set_dirty_def pte_set_bit_layout)
  show ?thesis
    unfolding pageTableWalk.simps Let_def WalkLeaf walk_end.case
    by (intro returns_if returns_prod walk_fault_returns [OF kind] walk_finish_returns [OF l]
        walk_finish_returns [OF l2])
qed

lemma cache_walk_returns: "returns w \<Longrightarrow> returns (cache_walk vm w)"
  by (auto simp: returns_def cache_walk_def)

lemma use_entry_returns:
  assumes kind: "read \<or> write \<or> exec"
  shows "returns (use_entry vm mem i va priv read write exec)"
  unfolding use_entry.simps Let_def
  by (intro returns_if page_fault_returns [OF kind]) (simp_all add: returns_def)

lemma translate_returns:
  assumes kind: "read \<or> write \<or> exec"
    and m: "mode vm = Bare \<or> mode vm = Sv32 \<or> mode vm = Sv39"
  shows "returns (translate ops vm mem va priv read write exec)"
proof (cases "findEntry (tlb vm) (drop_bit (pageBits vm) va) (asid vm)")
  case None
  from m show ?thesis
    unfolding translate.simps Let_def None option.case
    by (elim disjE)
      (simp_all add: returns_if cache_walk_returns pageTableWalk_returns [OF kind]
        page_fault_returns [OF kind], simp add: returns_def)
next
  case (Some i)
  then show ?thesis
    unfolding translate.simps Let_def Some option.case
    by (intro returns_if use_entry_returns [OF kind]) (simp add: returns_def)
qed

text \<open>
  C9.  For a call of \<^verbatim>\<open>translate\<close> with exactly one of read, write and exec set, every
  result other than \<open>NONE\<close> is \<open>INST_PAGE_FAULT\<close> for an execute access,
  \<open>LOAD_PAGE_FAULT\<close> for a read and \<open>STORE_PAGE_FAULT\<close> for a write, whichever step of
  the probe or of the walk gave up, a failed read or write of a page table entry
  included.
\<close>

theorem fault_kind_follows_access_kind:
  assumes "translate ops vm mem va priv read write exec = Inr r"
    and "cause r \<noteq> NONE"
    and "(read \<and> \<not> write \<and> \<not> exec) \<or> (\<not> read \<and> write \<and> \<not> exec) \<or> (\<not> read \<and> \<not> write \<and> exec)"
  shows "(exec \<longrightarrow> cause r = INST_PAGE_FAULT)
       \<and> (read \<longrightarrow> cause r = LOAD_PAGE_FAULT)
       \<and> (write \<longrightarrow> cause r = STORE_PAGE_FAULT)"
  using translate_cause [OF assms(1,2)] assms(3)
  by (auto simp: pageFaultType_def split: if_splits)

text \<open>The witness: an execute access stopped by the leaf check, a read whose first
  page table entry (at \<^verbatim>\<open>0x1000\<close>) cannot be read, and a write whose write-back of the
  entry fails.\<close>

theorem fault_kind_follows_access_kind_witness:
  "(\<exists>r. translate cell_ops vm32 (sv32_tables_only 0xCDF) 0x00800123 User False False True = Inr r
        \<and> accesses r = [MemRead 0x1008, MemRead 0x2000] \<and> cause r = INST_PAGE_FAULT)
   \<and> (\<exists>r. translate cell_ops vm32 (sv32_tables_only 0xCDF) 0x00000123 User True False False = Inr r
        \<and> accesses r = [MemRead 0x1000] \<and> cause r = LOAD_PAGE_FAULT)
   \<and> (\<exists>r. translate cell_ops vm32 (sv32_tables_only 0xC1F) 0x00800123 User False True False = Inr r
        \<and> accesses r = [MemRead 0x1008, MemRead 0x2000, MemWrite 0 0 0xCDF]
        \<and> cause r = STORE_PAGE_FAULT)"
proof -
  define rx :: "cell_memory outcome" where
    "rx = \<lparr>cause = INST_PAGE_FAULT, pa = None, vm_after = vm32,
           mem_after = sv32_tables_only 0xCDF, accesses = [MemRead 0x1008, MemRead 0x2000]\<rparr>"
  define rr :: "cell_memory outcome" where
    "rr = \<lparr>cause = LOAD_PAGE_FAULT, pa = None, vm_after = vm32,
           mem_after = sv32_tables_only 0xCDF, accesses = [MemRead 0x1000]\<rparr>"
  define rw :: "cell_memory outcome" where
    "rw = \<lparr>cause = STORE_PAGE_FAULT, pa = None, vm_after = vm32,
           mem_after = sv32_tables_only 0xC1F,
           accesses = [MemRead 0x1008, MemRead 0x2000, MemWrite 0 0 0xCDF]\<rparr>"
  have ex: "translate cell_ops vm32 (sv32_tables_only 0xCDF) 0x00800123 User False False True = Inr rx"
    by (simp add: rx_def eval_defs vm32_def tlb2_def sv32_tables_only_def)
  have er: "translate cell_ops vm32 (sv32_tables_only 0xCDF) 0x00000123 User True False False = Inr rr"
    by (simp add: rr_def eval_defs vm32_def tlb2_def sv32_tables_only_def)
  have ew: "translate cell_ops vm32 (sv32_tables_only 0xC1F) 0x00800123 User False True False = Inr rw"
    by (simp add: rw_def eval_defs vm32_def tlb2_def sv32_tables_only_def)
  have nx: "cause rx \<noteq> NONE" and nr: "cause rr \<noteq> NONE" and nw: "cause rw \<noteq> NONE"
    by (simp_all add: rx_def rr_def rw_def)
  have "cause rx = INST_PAGE_FAULT"
    using fault_kind_follows_access_kind [OF ex nx] by simp
  moreover have "cause rr = LOAD_PAGE_FAULT"
    using fault_kind_follows_access_kind [OF er nr] by simp
  moreover have "cause rw = STORE_PAGE_FAULT"
    using fault_kind_follows_access_kind [OF ew nw] by simp
  moreover have "accesses rx = [MemRead 0x1008, MemRead 0x2000]" "accesses rr = [MemRead 0x1000]"
    "accesses rw = [MemRead 0x1008, MemRead 0x2000, MemWrite 0 0 0xCDF]"
    by (simp_all add: rx_def rr_def rw_def)
  ultimately show ?thesis using ex er ew by blast
qed

section \<open>A hit in the buffer\<close>

lemma first_index_less: "first_index P xs = Some i \<Longrightarrow> i < length xs"
  by (induction xs arbitrary: i) (auto split: if_splits)




section \<open>Non-canonical addresses in the states of a translator\<close>

text \<open>The constructor leaves a translator in one of these states.\<close>

lemma ilog2_less: "0 < k \<Longrightarrow> n < 2 ^ k \<Longrightarrow> ilog2 n < k"
proof (induction k arbitrary: n)
  case 0
  then show ?case by simp
next
  case (Suc k)
  show ?case
  proof (cases "n < 2")
    case True
    then show ?thesis by (simp add: ilog2.simps)
  next
    case False
    then have k: "0 < k" using Suc.prems by (cases k) auto
    from Suc.prems have "n div 2 < 2 ^ k" by simp
    from Suc.IH [OF k this] False show ?thesis by (simp add: ilog2.simps [of n])
  qed
qed

lemma newVirtMem_reachable:
  assumes "newVirtMem hart ps tlbSize = Inr vm"
  shows "reachable ops vm"
proof (rule reachable.invalidated)
  have "ilog2 (unat ps) < 32"
    using unsigned_less [of ps, where 'a = nat] by (intro ilog2_less) simp_all
  with assms show "pageBits vm < 32"
    by (auto simp: newVirtMem_def Let_def split: if_splits)
  from assms show "list_all (\<lambda>e. \<not> entry_valid e) (entries (tlb vm))"
    by (auto simp: newVirtMem_def Let_def newTlb_def emptyTlbEntry_def list_all_iff split: if_splits)
qed

text \<open>The page number of an address carries every bit from \<^verbatim>\<open>pageBits_\<close> up, and so
  the bits the check of the mode looks at: two addresses of the same page pass or fail
  together.  An address that fails therefore misses in a buffer whose keys all passed.\<close>

lemma key_determines_check:
  assumes pb: "pb < 32" and eq: "drop_bit pb va = drop_bit pb va'"
  shows "passes_check m va = passes_check m (va' :: 64 word)"
proof -
  have bits: "bit va i = bit va' i" if "pb \<le> i" for i
  proof -
    have "bit (drop_bit pb va) (i - pb) = bit (drop_bit pb va') (i - pb)"
      by (simp only: eq)
    with that show ?thesis by (simp add: bit_simps)
  qed
  from pb have "bit va 38 = bit va' 38" "bit va 47 = bit va' 47"
    by (simp_all add: bits)
  moreover from pb have "\<And>i. 39 \<le> i \<Longrightarrow> bit va i = bit va' i"
    by (simp add: bits)
  ultimately show ?thesis
    unfolding passes_check_def by auto
qed

lemma first_index_holds: "first_index P xs = Some i \<Longrightarrow> P (xs ! i)"
  by (induction xs arbitrary: i) (auto split: if_splits)

lemma checked_noncanonical_misses:
  assumes inv: "keys_checked vm" and bad: "\<not> passes_check (mode vm) va"
  shows "findEntry (tlb vm) (drop_bit (pageBits vm) va) (asid vm) = None"
proof (rule ccontr)
  assume "findEntry (tlb vm) (drop_bit (pageBits vm) va) (asid vm) \<noteq> None"
  then obtain i where hit: "first_index (tlb_match (drop_bit (pageBits vm) va) (asid vm)) (entries (tlb vm)) = Some i"
    by (auto simp: findEntry_def)
  let ?e = "entries (tlb vm) ! i"
  from first_index_less [OF hit] have mem: "?e \<in> set (entries (tlb vm))" by simp
  from first_index_holds [OF hit]
  have v: "entry_valid ?e" and k: "virtPageNum ?e = drop_bit (pageBits vm) va"
    by (simp_all add: tlb_match_def)
  from inv mem v obtain va0 where
    k0: "virtPageNum ?e = drop_bit (pageBits vm) va0" and ok: "passes_check (mode vm) va0"
    by (auto simp: keys_checked_def key_checked_def)
  from inv have pb: "pageBits vm < 32" by (simp add: keys_checked_def)
  from k k0 have "drop_bit (pageBits vm) va = drop_bit (pageBits vm) va0" by simp
  from key_determines_check [OF pb this] ok bad show False by simp
qed

text \<open>A walk that succeeds fills the entry with the page number of the address walked, and
  \<^verbatim>\<open>translate\<close> reaches the walk only with an address that passed the check of the mode:
  every call of \<^verbatim>\<open>translate\<close> keeps the keys of the buffer checked.\<close>

lemma walk_entry_key:
  assumes res: "pageTableWalk ops vm (mem :: 'm) pte0 va address priv read write exec = Inr wo"
    and ok: "w_cause wo = NONE"
  shows "virtPageNum (w_entry wo) = drop_bit (pageBits vm) address"
proof -
  define P where "P = (\<lambda>x :: error + 'm walk_outcome.
      \<forall>w. x = Inr w \<longrightarrow> w_cause w = NONE \<longrightarrow> virtPageNum (w_entry w) = drop_bit (pageBits vm) address)"
  have P_if: "\<And>c x y. P x \<Longrightarrow> P y \<Longrightarrow> P (if c then x else y)"
    by simp
  have P_prod: "\<And>f p. (\<And>ok m. P (f ok m)) \<Longrightarrow> P (case p of (ok, m) \<Rightarrow> f ok m)"
    by (simp add: split_beta)
  have P_fault: "\<And>m e. P (walk_fault read write exec m e)"
    by (auto simp: P_def walk_fault_def pageFaultType_def split: sum.splits if_splits)
  have P_finish: "\<And>m p k e. P (walk_finish vm m p va address k e)"
    by (auto simp: P_def walk_finish.simps Let_def split: if_splits)
  have "P (pageTableWalk ops vm mem pte0 va address priv read write exec)"
  proof (cases "walk_loop ops vm mem pte0 va (pageTableRootPage vm * ucast (pageSize vm))
                  (pte_levels pte0 - 1) []")
    case (WalkFault evs)
    show ?thesis
      unfolding pageTableWalk.simps Let_def WalkFault walk_end.case by (rule P_fault)
  next
    case (WalkLeaf pte ii evs)
    show ?thesis
      unfolding pageTableWalk.simps Let_def WalkLeaf walk_end.case
      by (intro P_if P_prod P_fault P_finish)
  qed
  with res ok show ?thesis unfolding P_def by blast
qed


lemma insertEntry_entries:
  "e' \<in> set (entries (insertEntry t e)) \<Longrightarrow>
   e' \<in> set (entries t) \<or> e' = e\<lparr>time := tlb_clock t\<rparr>"
  using set_update_subset_insert [of "entries t" _ "e\<lparr>time := tlb_clock t\<rparr>"]
  by (auto simp: insertEntry_def split: option.splits)

lemma key_checked_cong:
  "mode vm' = mode vm \<Longrightarrow> pageBits vm' = pageBits vm \<Longrightarrow> key_checked vm' e = key_checked vm e"
  by (simp add: key_checked_def)

lemma cache_walk_keeps_checked:
  assumes inv: "keys_checked vm"
    and pass: "passes_check (mode vm) va"
    and res: "cache_walk vm (pageTableWalk ops vm mem pte0 v va priv read write exec) = Inr r"
  shows "keys_checked (vm_after r)"
proof -
  from res obtain wo where w: "pageTableWalk ops vm mem pte0 v va priv read write exec = Inr wo"
    and r: "r = \<lparr>cause = w_cause wo, pa = w_pa wo,
               vm_after = (if w_cause wo = NONE then vm\<lparr>tlb := insertEntry (tlb vm) (w_entry wo)\<rparr> else vm),
               mem_after = w_mem wo, accesses = w_accesses wo\<rparr>"
    by (auto simp: cache_walk_def split: sum.splits)
  show ?thesis
  proof (cases "w_cause wo = NONE")
    case False
    with r inv show ?thesis by simp
  next
    case True
    from walk_entry_key [OF w True]
    have key: "virtPageNum (w_entry wo) = drop_bit (pageBits vm) va" .
    have new: "key_checked vm ((w_entry wo)\<lparr>time := tlb_clock (tlb vm)\<rparr>)"
      using key pass by (auto simp: key_checked_def)
    have "key_checked vm e" if "e \<in> set (entries (insertEntry (tlb vm) (w_entry wo)))" for e
      using insertEntry_entries [OF that] inv new by (auto simp: keys_checked_def)
    with inv True r show ?thesis
      by (simp add: keys_checked_def key_checked_cong [of "vm\<lparr>tlb := insertEntry (tlb vm) (w_entry wo)\<rparr>" vm])
  qed
qed

lemma use_entry_keeps_checked:
  assumes inv: "keys_checked vm"
    and u: "use_entry vm (mem :: 'm) i va priv read write exec = Inr r"
  shows "keys_checked (vm_after r)"
proof (cases rule: use_entry_cases [where 'm = 'm, of vm i va priv read "write" exec])
  case fault
  from u inv show ?thesis
    unfolding fault by (auto simp: page_fault_def split: sum.splits)
next
  case plain
  from u inv show ?thesis unfolding plain(3) by auto
next
  case update
  let ?e = "entries (tlb vm) ! i"
  let ?e' = "if write then ?e\<lparr>entry_accessed := True, entry_dirty := True\<rparr>
             else ?e\<lparr>entry_accessed := True\<rparr>"
  let ?vm' = "vm\<lparr>tlb := (tlb vm)\<lparr>entries := (entries (tlb vm))[i := ?e']\<rparr>\<rparr>"
  from u have r: "vm_after r = ?vm'" unfolding update(3) by auto
  show ?thesis
  proof (cases "i < length (entries (tlb vm))")
    case False
    then have "(entries (tlb vm))[i := ?e'] = entries (tlb vm)"
      by (intro list_update_beyond) simp
    with inv r show ?thesis
      by (simp add: keys_checked_def key_checked_cong [of ?vm' vm])
  next
    case True
    then have "?e \<in> set (entries (tlb vm))" by simp
    with inv have "key_checked vm ?e" by (simp add: keys_checked_def)
    then have new: "key_checked vm ?e'" by (simp add: key_checked_def)
    have "key_checked vm e" if "e \<in> set ((entries (tlb vm))[i := ?e'])" for e
      using that set_update_subset_insert [of "entries (tlb vm)" i ?e'] inv new
      by (auto simp: keys_checked_def)
    with inv r show ?thesis
      by (simp add: keys_checked_def key_checked_cong [of ?vm' vm])
  qed
qed

lemma passes_check_code:
  "passes_check Sv39 va =
     (\<not> drop_bit 39 va \<noteq> (if drop_bit 38 va AND 1 \<noteq> 0 then 0x1ffffff else drop_bit 38 va AND 1))"
  "passes_check Sv48 va =
     (\<not> drop_bit 48 va \<noteq> (if drop_bit 47 va AND 1 \<noteq> 0 then 0xffff else drop_bit 47 va AND 1))"
  "passes_check Sv32 va"
  unfolding sv39_check sv48_check by (auto simp: passes_check_def)

lemma translate_keeps_checked:
  assumes inv: "keys_checked vm"
    and res: "translate ops vm mem va priv read write exec = Inr r"
  shows "keys_checked (vm_after r)"
proof (cases "mode vm = Bare")
  case True
  with res inv show ?thesis by (auto simp: translate.simps)
next
  case notBare: False
  show ?thesis
  proof (cases "findEntry (tlb vm) (drop_bit (pageBits vm) va) (asid vm)")
    case (Some i)
    with notBare res have "use_entry vm mem i va priv read write exec = Inr r"
      by (simp add: translate.simps)
    from use_entry_keeps_checked [OF inv this] show ?thesis .
  next
    case None
    with notBare res consider
        (walk) pte0 v where "passes_check (mode vm) va"
          "cache_walk vm (pageTableWalk ops vm mem pte0 v va priv read write exec) = Inr r"
      | (canon) "page_fault read write exec vm mem [] = Inr r"
      by (auto simp: translate.simps Let_def passes_check_code simp del: not_not split: if_splits)
    then show ?thesis
    proof cases
      case walk
      from cache_walk_keeps_checked [OF inv walk] show ?thesis .
    next
      case canon
      with inv show ?thesis by (auto simp: page_fault_def split: sum.splits)
    qed
  qed
qed

lemma reachable_keys_checked: "reachable ops vm \<Longrightarrow> keys_checked vm"
proof (induction rule: reachable.induct)
  case (invalidated vm)
  then show ?case by (auto simp: keys_checked_def key_checked_def list_all_iff)
next
  case (translated vm mem va priv read "write" exec r)
  from translate_keeps_checked [OF translated.IH translated.hyps(2)] show ?case .
next
  case (root_set vm root)
  then show ?case by (simp add: keys_checked_def key_checked_def setPageTableRoot_def)
next
  case (asid_set vm a)
  then show ?case by (simp add: keys_checked_def key_checked_def setAddressSpace_def)
next
  case (mxr_set vm flag)
  then show ?case by (simp add: keys_checked_def key_checked_def setExecReadable_def)
next
  case (sum_set vm flag)
  then show ?case by (simp add: keys_checked_def key_checked_def setSupervisorAccessUser_def)
qed


text \<open>
  C7.  In every state of a translator (reached from a buffer without a valid entry by
  calls of \<^verbatim>\<open>translate\<close> and by the setters that leave the mode alone): an address
  translated in Sv39 whose bits 63:39 are not all equal to bit 38, and an address
  translated in Sv48 whose bits 63:48 are not all equal to bit 47, gets the page fault of
  the access kind; no page table entry is read, and the memory and the translator are as
  before.  Sv32 and Bare have no such check: on a miss in Sv32 the call is the walk of the
  low 32 bits of the address, and in Bare mode the address is returned as it is.
\<close>

theorem noncanonical_address_faults:
  assumes reach: "reachable ops vm" and kind: "read \<or> write \<or> exec"
  shows "(mode vm = Sv39 \<and> (\<exists>i. 39 \<le> i \<and> i < 64 \<and> bit va i \<noteq> bit va 38)
          \<or> mode vm = Sv48 \<and> (\<exists>i. 48 \<le> i \<and> i < 64 \<and> bit va i \<noteq> bit va 47)
          \<longrightarrow> translate ops vm mem va priv read write exec =
                Inr \<lparr>cause = (if exec then INST_PAGE_FAULT
                              else if read then LOAD_PAGE_FAULT else STORE_PAGE_FAULT),
                     pa = None, vm_after = vm, mem_after = mem, accesses = []\<rparr>)
       \<and> (findEntry (tlb vm) (drop_bit (pageBits vm) va) (asid vm) = None \<and> mode vm = Sv32
          \<longrightarrow> translate ops vm mem va priv read write exec =
                cache_walk vm
                  (pageTableWalk ops vm mem (Pte32 0) (Va32 (ucast va)) va priv read write exec))
       \<and> (mode vm = Bare
          \<longrightarrow> translate ops vm mem va priv read write exec =
                Inr \<lparr>cause = NONE, pa = Some va, vm_after = vm, mem_after = mem, accesses = []\<rparr>)"
proof -
  from reach have inv: "keys_checked vm" by (rule reachable_keys_checked)
  have miss: "findEntry (tlb vm) (drop_bit (pageBits vm) va) (asid vm) = None"
    if "mode vm = Sv39 \<and> (\<exists>i. 39 \<le> i \<and> i < 64 \<and> bit va i \<noteq> bit va 38)
        \<or> mode vm = Sv48 \<and> (\<exists>i. 48 \<le> i \<and> i < 64 \<and> bit va i \<noteq> bit va 47)"
  proof -
    from that have "\<not> passes_check (mode vm) va"
      unfolding passes_check_def by auto
    with inv show ?thesis by (rule checked_noncanonical_misses)
  qed
  from miss noncanonical_miss_faults [OF kind, of vm va ops mem priv] show ?thesis
    by blast
qed


text \<open>The witness: a translator in Sv39 with an empty buffer translates \<^verbatim>\<open>0x123\<close> through
  the one-entry table, which installs an entry; in the state after that call the address
  \<^verbatim>\<open>0x8000000123\<close> (bit 39 set, bit 38 clear) gets the fault of a read.  In Sv48, with an
  empty buffer, so does the write to \<^verbatim>\<open>0x1000000000123\<close> (bit 48 set, bit 47 clear).\<close>

theorem noncanonical_address_faults_witness:
  "\<exists>r. translate cell_ops vm39 sv39_table 0x123 User True False False = Inr r
       \<and> cause r = NONE \<and> pa r = Some 0x40000123
       \<and> findEntry (tlb (vm_after r)) 0 0 = Some 0
       \<and> translate cell_ops (vm_after r) sv39_table 0x8000000123 User True False False =
           Inr \<lparr>cause = LOAD_PAGE_FAULT, pa = None, vm_after = vm_after r,
                mem_after = sv39_table, accesses = []\<rparr>
       \<and> translate cell_ops vm48 sv39_table 0x1000000000123 User False True False =
           Inr \<lparr>cause = STORE_PAGE_FAULT, pa = None, vm_after = vm48,
                mem_after = sv39_table, accesses = []\<rparr>"
proof -
  define r :: "cell_memory outcome" where
    "r = \<lparr>cause = NONE, pa = Some 0x40000123,
          vm_after = vm39\<lparr>tlb :=
            \<lparr>entries =
               [\<lparr>virtPageNum = 0, physPageNum = 0x40000, time = 0, entry_asid = 0,
                 entry_valid = True, entry_global = False, entry_user = True, entry_read = True,
                 entry_write = True, entry_exec = False, entry_accessed = True,
                 entry_dirty = True\<rparr>,
                emptyTlbEntry],
             tlb_clock = 1\<rparr>\<rparr>,
          mem_after = sv39_table, accesses = [MemRead 0x1000]\<rparr>"
  have start: "reachable cell_ops vm39"
    by (rule reachable.invalidated)
      (simp_all add: vm39_def vm32_def setMode_def tlb2_def emptyTlbEntry_def)
  have first: "translate cell_ops vm39 sv39_table 0x123 User True False False = Inr r"
    by (simp add: r_def eval_defs vm39_def vm32_def tlb2_def sv39_table_def)
  have reach: "reachable cell_ops (vm_after r)"
    by (rule reachable.translated [OF start first])
  have m: "mode (vm_after r) = Sv39"
    by (simp add: r_def vm39_def vm32_def setMode_def)
  have "39 \<le> (39 :: nat) \<and> (39 :: nat) < 64
      \<and> bit (0x8000000123 :: 64 word) 39 \<noteq> bit (0x8000000123 :: 64 word) 38"
    by simp
  then have bits: "\<exists>i. 39 \<le> i \<and> i < 64
      \<and> bit (0x8000000123 :: 64 word) i \<noteq> bit (0x8000000123 :: 64 word) 38"
    by (rule exI)
  have kind: "True \<or> False \<or> False" by simp
  from noncanonical_address_faults
      [OF reach kind, where va = "0x8000000123" and mem = sv39_table and priv = User] m bits
  have second: "translate cell_ops (vm_after r) sv39_table 0x8000000123 User True False False =
      Inr \<lparr>cause = LOAD_PAGE_FAULT, pa = None, vm_after = vm_after r,
           mem_after = sv39_table, accesses = []\<rparr>"
    by simp
  have start48: "reachable cell_ops vm48"
    by (rule reachable.invalidated)
      (simp_all add: vm48_def vm32_def setMode_def tlb2_def emptyTlbEntry_def)
  have m48: "mode vm48 = Sv48"
    by (simp add: vm48_def setMode_def)
  have "48 \<le> (48 :: nat) \<and> (48 :: nat) < 64
      \<and> bit (0x1000000000123 :: 64 word) 48 \<noteq> bit (0x1000000000123 :: 64 word) 47"
    by simp
  then have bits48: "\<exists>i. 48 \<le> i \<and> i < 64
      \<and> bit (0x1000000000123 :: 64 word) i \<noteq> bit (0x1000000000123 :: 64 word) 47"
    by (rule exI)
  have kind48: "False \<or> True \<or> False" by simp
  from noncanonical_address_faults
      [OF start48 kind48, where va = "0x1000000000123" and mem = sv39_table and priv = User]
    m48 bits48
  have third: "translate cell_ops vm48 sv39_table 0x1000000000123 User False True False =
      Inr \<lparr>cause = STORE_PAGE_FAULT, pa = None, vm_after = vm48,
           mem_after = sv39_table, accesses = []\<rparr>"
    by simp
  have "cause r = NONE" "pa r = Some 0x40000123" "findEntry (tlb (vm_after r)) 0 0 = Some 0"
    by (simp_all add: r_def eval_defs)
  with first second third show ?thesis by blast
qed

end
